theory Spec2Isabelle
  imports Complex_Main "HOL-Library.Sublist" "HOL-Library.Multiset"
begin

section \<open>Arnold TX Converter: the conversion logic of \<open>tx_convert_gui.py\<close>\<close>

text \<open>
  The development embeds the helper functions \<open>is_displacement\<close>, \<open>is_color\<close>,
  \<open>needs_conversion\<close>, \<open>build_maketx_cmd\<close>, \<open>convert_one\<close> and the method
  \<open>ConvertWorker.run\<close>. Everything the Python code obtains from outside (the file
  system, the environment variable, the external converter, the order in which the
  pool completes its futures, the reads of the cancellation flag) is a parameter of
  the model. Exceptions are values of the type \<open>exn\<close>; a function that can raise
  returns \<open>exn + 'a\<close>, with \<open>Inl\<close> for the raised exception.
\<close>

subsection \<open>Python strings\<close>

text \<open>
  A Python \<open>str\<close> is modelled as a \<open>string\<close> holding its UTF-8 bytes; an ASCII code
  point is one byte below \<open>0x80\<close>, every other code point is a sequence of bytes
  from \<open>0x80\<close> up.

  \<open>str.lower\<close>: an ASCII letter is mapped to its lower case. Two code points beyond
  ASCII have a lower case that contains an ASCII letter: U+212A (KELVIN SIGN, bytes
  \<open>E2 84 AA\<close>) becomes \<open>k\<close>, and U+0130 (bytes \<open>C4 B0\<close>) becomes \<open>i\<close> followed by U+0307
  (bytes \<open>CC 87\<close>). The lower case of any other code point is made of code points
  beyond ASCII; the model keeps its bytes. The program uses \<open>lower\<close> only to test
  the result against ASCII strings (tags, extensions, the word \<open>skip\<close>), and such a
  test sees the ASCII bytes of the result and where they are interrupted, which
  the model has as Python does.
\<close>

definition lower_char :: "char \<Rightarrow> char" where
  "lower_char c =
     (case map_of (zip ''ABCDEFGHIJKLMNOPQRSTUVWXYZ'' ''abcdefghijklmnopqrstuvwxyz'') c of
        Some d \<Rightarrow> d
      | None \<Rightarrow> c)"

fun lower :: "string \<Rightarrow> string" where
  "lower [] = []"
| "lower (c # cs) =
     (if c = CHR 0xE2 \<and> take 2 cs = [CHR 0x84, CHR 0xAA]
      then CHR ''k'' # lower (drop 2 cs)
      else if c = CHR 0xC4 \<and> take 1 cs = [CHR 0xB0]
      then CHR ''i'' # CHR 0xCC # CHR 0x87 # lower (drop 1 cs)
      else lower_char c # lower cs)"

text \<open>\<open>str_in sub s\<close> is Python's \<open>sub in s\<close> on strings.\<close>

fun str_in :: "string \<Rightarrow> string \<Rightarrow> bool" where
  "str_in sub [] = (sub = [])"
| "str_in sub (c # cs) = (prefix sub (c # cs) \<or> str_in sub cs)"

text \<open>
  \<open>str.strip()\<close> removes the white space of \<open>str.isspace\<close> at both ends. These are
  the code points U+0009 to U+000D, U+001C to U+0020, U+0085, U+00A0, U+1680, U+2000
  to U+200A, U+2028, U+2029, U+202F, U+205F and U+3000, listed here by their UTF-8
  bytes. \<open>strip_front ws s\<close> removes from the front of \<open>s\<close> the byte sequences of
  \<open>ws\<close>, as long as one of them is there.
\<close>

definition whitespace :: "string list" where
  "whitespace =
     [[CHR 0x09], [CHR 0x0A], [CHR 0x0B], [CHR 0x0C], [CHR 0x0D],
      [CHR 0x1C], [CHR 0x1D], [CHR 0x1E], [CHR 0x1F], [CHR 0x20],
      [CHR 0xC2, CHR 0x85], [CHR 0xC2, CHR 0xA0],
      [CHR 0xE1, CHR 0x9A, CHR 0x80],
      [CHR 0xE2, CHR 0x80, CHR 0x80], [CHR 0xE2, CHR 0x80, CHR 0x81],
      [CHR 0xE2, CHR 0x80, CHR 0x82], [CHR 0xE2, CHR 0x80, CHR 0x83],
      [CHR 0xE2, CHR 0x80, CHR 0x84], [CHR 0xE2, CHR 0x80, CHR 0x85],
      [CHR 0xE2, CHR 0x80, CHR 0x86], [CHR 0xE2, CHR 0x80, CHR 0x87],
      [CHR 0xE2, CHR 0x80, CHR 0x88], [CHR 0xE2, CHR 0x80, CHR 0x89],
      [CHR 0xE2, CHR 0x80, CHR 0x8A],
      [CHR 0xE2, CHR 0x80, CHR 0xA8], [CHR 0xE2, CHR 0x80, CHR 0xA9],
      [CHR 0xE2, CHR 0x80, CHR 0xAF],
      [CHR 0xE2, CHR 0x81, CHR 0x9F],
      [CHR 0xE3, CHR 0x80, CHR 0x80]]"

function strip_front :: "string list \<Rightarrow> string \<Rightarrow> string" where
  "strip_front ws s =
     (case find (\<lambda>w. w \<noteq> [] \<and> prefix w s) ws of
        None \<Rightarrow> s
      | Some w \<Rightarrow> strip_front ws (drop (length w) s))"
  by pat_completeness auto
termination
proof (relation "measure (\<lambda>(ws, s). length s)")
  show "wf (measure (\<lambda>(ws, s). length s))"
    by simp
next
  fix ws :: "string list" and s w :: string
  assume "find (\<lambda>w. w \<noteq> [] \<and> prefix w s) ws = Some w"
  then have "w \<noteq> []" and "prefix w s"
    by (auto simp: find_Some_iff)
  then have "length (drop (length w) s) < length s"
    by (cases s) (auto simp: prefix_def)
  then show "((ws, drop (length w) s), (ws, s)) \<in> measure (\<lambda>(ws, s). length s)"
    by simp
qed

definition lstrip :: "string \<Rightarrow> string" where
  "lstrip s = strip_front whitespace s"

definition rstrip :: "string \<Rightarrow> string" where
  "rstrip s = rev (strip_front (map rev whitespace) (rev s))"

definition strip :: "string \<Rightarrow> string" where
  "strip s = rstrip (lstrip s)"

text \<open>The decimal rendering of a natural number, as an f-string prints an \<open>int\<close>.\<close>

definition digit_char :: "nat \<Rightarrow> char" where
  "digit_char d = ''0123456789'' ! d"

fun str_nat :: "nat \<Rightarrow> string" where
  "str_nat n = (if n < 10 then [digit_char n] else str_nat (n div 10) @ [digit_char (n mod 10)])"

declare str_nat.simps [simp del]

text \<open>
  The spec's wording for the classifier, kept apart from the code's own test:
  \<open>tag\<close> is a case-insensitive substring of \<open>s\<close> when some contiguous piece of \<open>s\<close>
  equals \<open>tag\<close> up to the case of its letters.
\<close>

definition ci_substring :: "string \<Rightarrow> string \<Rightarrow> bool" where
  "ci_substring tag s \<longleftrightarrow> (\<exists>pre mid post. s = pre @ mid @ post \<and> lower mid = lower tag)"

text \<open>
  The tags of the classifier are plain patterns: not empty, made of ASCII bytes that
  are their own lower case, without \<open>k\<close> and not ending in \<open>i\<close>.
\<close>

definition plain_pattern :: "string \<Rightarrow> bool" where
  "plain_pattern t \<longleftrightarrow>
     t \<noteq> [] \<and> last t \<noteq> CHR ''i''
     \<and> list_all (\<lambda>c. \<not> digit7 c \<and> c \<noteq> CHR ''k'' \<and> lower_char c = c) t"

subsection \<open>Exceptions\<close>

text \<open>
  The exceptions the modelled operations raise, each with the text \<open>str(e)\<close> gives.
  All of them derive from Python's \<open>Exception\<close>. \<open>FileNotFoundError\<close> stands for the
  \<open>OSError\<close>s that \<open>pathlib\<close> treats as "no such entry".
\<close>

datatype exn = FileNotFoundError string | OSError string | ValueError string

fun str_exn :: "exn \<Rightarrow> string" where
  "str_exn (FileNotFoundError m) = m"
| "str_exn (OSError m) = m"
| "str_exn (ValueError m) = m"

subsection \<open>pathlib paths\<close>

text \<open>
  A path is its root (\<open>''/''\<close>, \<open>''//''\<close> or empty) and its components, as
  \<open>PurePosixPath\<close> keeps them. \<open>path_name\<close>, \<open>path_suffix\<close> and \<open>with_suffix\<close> follow
  \<open>PurePath.name\<close>, \<open>PurePath.suffix\<close> and \<open>PurePath.with_suffix\<close>.
\<close>

datatype path = PurePath (path_root: string) (path_parts: "string list")

definition path_name :: "path \<Rightarrow> string" where
  "path_name p = (case path_parts p of [] \<Rightarrow> [] | _ # _ \<Rightarrow> last (path_parts p))"

fun rfind :: "char \<Rightarrow> string \<Rightarrow> nat option" where
  "rfind c [] = None"
| "rfind c (x # xs) =
     (case rfind c xs of
        Some i \<Rightarrow> Some (Suc i)
      | None \<Rightarrow> if x = c then Some 0 else None)"

definition path_suffix :: "path \<Rightarrow> string" where
  "path_suffix p =
     (let name = path_name p in
      case rfind CHR ''.'' name of
        None \<Rightarrow> []
      | Some i \<Rightarrow> if 0 < i \<and> Suc i < length name then drop i name else [])"

fun join_parts :: "string list \<Rightarrow> string" where
  "join_parts [] = []"
| "join_parts [x] = x"
| "join_parts (x # y # ys) = x @ ''/'' @ join_parts (y # ys)"

definition str_path :: "path \<Rightarrow> string" where
  "str_path p =
     (if path_root p = [] \<and> path_parts p = [] then ''.''
      else path_root p @ join_parts (path_parts p))"

definition repr_str :: "string \<Rightarrow> string" where
  "repr_str s = [CHR 0x27] @ s @ [CHR 0x27]"

definition repr_path :: "path \<Rightarrow> string" where
  "repr_path p = ''PosixPath('' @ repr_str (str_path p) @ '')''"

definition with_suffix :: "path \<Rightarrow> string \<Rightarrow> exn + path" where
  "with_suffix p sfx =
     (if CHR ''/'' \<in> set sfx then Inl (ValueError (''Invalid suffix '' @ repr_str sfx))
      else if (sfx \<noteq> [] \<and> \<not> prefix ''.'' sfx) \<or> sfx = ''.''
        then Inl (ValueError (''Invalid suffix '' @ repr_str sfx))
      else if path_name p = [] then Inl (ValueError (repr_path p @ '' has an empty name''))
      else
        (let name = path_name p;
             old_suffix = path_suffix p;
             name' = (if old_suffix = [] then name @ sfx
                      else take (length name - length old_suffix) name @ sfx)
         in Inr (PurePath (path_root p) (butlast (path_parts p) @ [name']))))"

text \<open>\<open>Path(s)\<close>: the string is split at \<open>/\<close>; empty components and \<open>.\<close> are dropped.\<close>

fun split_slash :: "string \<Rightarrow> string list" where
  "split_slash [] = [[]]"
| "split_slash (c # cs) =
     (if c = CHR ''/'' then [] # split_slash cs
      else (case split_slash cs of
              [] \<Rightarrow> [[c]]
            | w # ws \<Rightarrow> (c # w) # ws))"

definition Path_of :: "string \<Rightarrow> path" where
  "Path_of s =
     PurePath
       (if prefix ''//'' s \<and> \<not> prefix ''///'' s then ''//''
        else if prefix ''/'' s then ''/'' else [])
       (filter (\<lambda>w. w \<noteq> [] \<and> w \<noteq> ''.'') (split_slash s))"

subsection \<open>The file system\<close>

text \<open>
  \<open>os.stat\<close> on a path either raises or returns a result, of which the model keeps
  whether the entry is a regular file and its \<open>st_mtime\<close> (a finite float, read as
  the real number it denotes). \<open>path_exists\<close> and \<open>path_is_file\<close> follow
  \<open>Path.exists\<close> and \<open>Path.is_file\<close>: a missing entry and an unencodable path give
  \<open>False\<close>, any other \<open>OSError\<close> is raised.
\<close>

record stat_result =
  st_is_reg :: bool
  st_mtime :: real

type_synonym filesystem = "path \<Rightarrow> exn + stat_result"

definition path_exists :: "filesystem \<Rightarrow> path \<Rightarrow> exn + bool" where
  "path_exists fs p =
     (case fs p of
        Inr st \<Rightarrow> Inr True
      | Inl (FileNotFoundError m) \<Rightarrow> Inr False
      | Inl (ValueError m) \<Rightarrow> Inr False
      | Inl (OSError m) \<Rightarrow> Inl (OSError m))"

definition path_is_file :: "filesystem \<Rightarrow> path \<Rightarrow> exn + bool" where
  "path_is_file fs p =
     (case fs p of
        Inr st \<Rightarrow> Inr (st_is_reg st)
      | Inl (FileNotFoundError m) \<Rightarrow> Inr False
      | Inl (ValueError m) \<Rightarrow> Inr False
      | Inl (OSError m) \<Rightarrow> Inl (OSError m))"

subsection \<open>Module constants\<close>

definition VALID_EXTS :: "string list" where
  "VALID_EXTS = [''.png'', ''.jpg'', ''.jpeg'', ''.tif'', ''.tiff'', ''.exr'', ''.dds'',
                 ''.tga'', ''.bmp'', ''.psd'']"

definition COLOR_TAGS :: "string list" where
  "COLOR_TAGS = [''srgb'', ''basecolor'', ''albedo'', ''color'', ''diffuse'']"

definition DSP_TAGS :: "string list" where
  "DSP_TAGS = [''dsp'', ''disp'', ''displacement'', ''zdisp'', ''height'']"

subsection \<open>maketx helpers\<close>

definition is_displacement :: "path \<Rightarrow> bool" where
  "is_displacement fname =
     (let low = lower (path_name fname) in list_ex (\<lambda>tag. str_in tag low) DSP_TAGS)"

definition is_color :: "path \<Rightarrow> bool" where
  "is_color fname =
     (let low = lower (path_name fname) in
      if is_displacement fname then False
      else list_ex (\<lambda>tag. str_in tag low) COLOR_TAGS)"

text \<open>
  \<open>needs_conversion\<close>: \<open>src.stat()\<close> is evaluated before \<open>dst.stat()\<close>, and either
  may raise.
\<close>

definition needs_conversion :: "filesystem \<Rightarrow> path \<Rightarrow> path \<Rightarrow> exn + bool" where
  "needs_conversion fs src dst =
     (case path_exists fs dst of
        Inl e \<Rightarrow> Inl e
      | Inr False \<Rightarrow> Inr True
      | Inr True \<Rightarrow>
          (case fs src of
             Inl e \<Rightarrow> Inl e
           | Inr s \<Rightarrow>
               (case fs dst of
                  Inl e \<Rightarrow> Inl e
                | Inr d \<Rightarrow> Inr (st_mtime s > st_mtime d))))"

text \<open>
  An optional string is true in a Python condition when it is neither \<open>None\<close> nor
  empty; \<open>or_empty x\<close> is \<open>x or ""\<close>.
\<close>

fun truthy :: "string option \<Rightarrow> bool" where
  "truthy None = False"
| "truthy (Some s) = (s \<noteq> [])"

fun or_empty :: "string option \<Rightarrow> string" where
  "or_empty None = []"
| "or_empty (Some s) = s"

definition build_maketx_cmd ::
    "path \<Rightarrow> string option \<Rightarrow> bool \<Rightarrow> bool \<Rightarrow> bool \<Rightarrow> string \<Rightarrow> string list" where
  "build_maketx_cmd src ocio_path verbose is_col is_dsp maketx_path =
     [maketx_path, str_path src]
     @ (if truthy ocio_path then [''--colorconfig'', or_empty ocio_path] else [])
     @ [''--opaque-detect'', ''--constant-color-detect'', ''--monochrome-detect'',
        ''--fixnan'', ''box3'',
        ''-u'',
        ''--filter'', ''lanczos3'',
        ''--attrib'', ''tiff:half'', ''1'',
        ''--unpremult'',
        ''--oiio'']
     @ [''--colorconvert'']
     @ (if is_col then [''Utility - sRGB - Texture'', ''ACES - ACEScg'']
        else [''Utility - Raw'', ''ACES - ACEScg''])
     @ (if is_dsp then [''-d'', ''float''] else [''-d'', ''half''])
     @ (if verbose then [''-v''] else [])
     @ [''--threads'', ''1'']"

subsection \<open>The conversion runner\<close>

text \<open>
  \<open>subprocess.run\<close> is a parameter: given the argument list and whether standard
  output is piped, it raises or returns the completed process. A conversion outcome is
  the tuple \<open>(src, success, message)\<close> of the source.
\<close>

record completed_process =
  returncode :: int
  stdout :: "string option"
  stderr :: "string option"

datatype listing = Listing "path list" "exn option"

text \<open>
  The surroundings of a run: \<open>os.stat\<close>, \<open>subprocess.run\<close>, the value of the
  environment variable \<open>OCIO\<close>, \<open>os.cpu_count()\<close>, and what the generators of
  \<open>root_dir.glob("*")\<close> and \<open>root_dir.rglob("*")\<close> yield. The file system is read as
  one snapshot: the only path a task writes is its own destination, which ends in
  \<open>.tx\<close> and is examined by no other task.
\<close>

record env =
  os_stat :: filesystem
  subprocess_run :: "string list \<Rightarrow> bool \<Rightarrow> exn + completed_process"
  environ_OCIO :: "string option"
  cpu_count :: "nat option"
  glob_star :: "path \<Rightarrow> listing"
  rglob_star :: "path \<Rightarrow> listing"

type_synonym outcome = "path \<times> bool \<times> string"

definition outcome_src :: "outcome \<Rightarrow> path" where
  "outcome_src r = fst r"

definition outcome_success :: "outcome \<Rightarrow> bool" where
  "outcome_success r = fst (snd r)"

definition outcome_message :: "outcome \<Rightarrow> string" where
  "outcome_message r = snd (snd r)"

text \<open>
  \<open>convert_one_try\<close> is the body of the \<open>try\<close> block: its first component is the
  returned tuple, or the exception that left the block; its second component lists the
  argument lists passed to \<open>subprocess.run\<close>, that is, the external processes the call
  started. \<open>convert_one\<close> adds the \<open>except Exception\<close> handler.
\<close>

definition convert_one_try ::
    "env \<Rightarrow> path \<Rightarrow> string option \<Rightarrow> bool \<Rightarrow> string \<Rightarrow> (exn + outcome) \<times> string list list" where
  "convert_one_try e src ocio_path verbose maketx_path =
     (case (if lower (path_suffix src) \<noteq> ''.tx''
            then with_suffix src (path_suffix src @ ''.tx'') else Inr src) of
        Inl x \<Rightarrow> (Inl x, [])
      | Inr dst \<Rightarrow>
          if lower (path_suffix src) = ''.tx''
          then (Inr (src, False, ''Already a .tx; skipping.''), [])
          else
            (case needs_conversion (os_stat e) src dst of
               Inl x \<Rightarrow> (Inl x, [])
             | Inr False \<Rightarrow>
                 (Inr (src, False, ''Up-to-date .tx exists: '' @ path_name dst @ ''; skipping.''), [])
             | Inr True \<Rightarrow>
                 (let col = is_color src;
                      dsp = is_displacement src;
                      cmd = build_maketx_cmd src ocio_path verbose col dsp maketx_path
                  in case subprocess_run e cmd verbose of
                       Inl x \<Rightarrow> (Inl x, [cmd])
                     | Inr proc \<Rightarrow>
                         if returncode proc = 0
                         then
                           (let out_msg = (if verbose \<and> truthy (stdout proc)
                                           then strip (or_empty (stdout proc)) else [])
                            in (Inr (src, True, if out_msg \<noteq> [] then out_msg else ''OK''), [cmd]))
                         else
                           (let err = strip (or_empty (stderr proc))
                            in (Inr (src, False,
                                     ''maketx failed: ''
                                     @ (if err \<noteq> [] then err else ''Unknown error'')), [cmd])))))"

definition convert_one ::
    "env \<Rightarrow> path \<Rightarrow> string option \<Rightarrow> bool \<Rightarrow> string \<Rightarrow> outcome \<times> string list list" where
  "convert_one e src ocio_path verbose maketx_path =
     (case convert_one_try e src ocio_path verbose maketx_path of
        (Inr r, cmds) \<Rightarrow> (r, cmds)
      | (Inl x, cmds) \<Rightarrow> ((src, False, ''Exception: '' @ str_exn x), cmds))"

subsection \<open>The worker\<close>

record worker =
  root_dir :: path
  filter_str :: string
  recursive :: bool
  ocio_file :: "string option"
  verbose :: bool
  maketx_path :: string

definition ConvertWorker_init ::
    "path \<Rightarrow> string \<Rightarrow> bool \<Rightarrow> string option \<Rightarrow> bool \<Rightarrow> string \<Rightarrow> worker" where
  "ConvertWorker_init rdir flt recur ocio verb mk =
     \<lparr>root_dir = rdir,
      filter_str = (if flt \<noteq> [] then strip flt else []),
      recursive = recur,
      ocio_file = (if truthy ocio then Some (strip (or_empty ocio)) else None),
      verbose = verb,
      maketx_path = strip mk\<rparr>"

text \<open>
  What a call of \<open>run\<close> does, as a record: the signals it emits (\<open>fatal\<close>,
  \<open>item_done\<close>, \<open>progress\<close>, \<open>finished\<close>), an exception that leaves it, the tasks
  submitted to the pool, the external commands those tasks ran, the results the
  completion loop took from the futures, and the counters \<open>done\<close>, \<open>ok\<close>, \<open>fail\<close>.
\<close>

record run_trace =
  fatal :: "string option"
  uncaught :: "exn option"
  dispatched :: "path list"
  executed :: "string list list"
  received :: "outcome list"
  n_done :: nat
  n_ok :: nat
  n_fail :: nat
  item_done :: "string list"
  progress :: "(nat \<times> nat) list"
  finished :: "(nat \<times> nat) option"

definition idle :: run_trace where
  "idle = \<lparr>fatal = None, uncaught = None, dispatched = [], executed = [], received = [],
           n_done = 0, n_ok = 0, n_fail = 0, item_done = [], progress = [], finished = None\<rparr>"

definition emit_fatal :: "string \<Rightarrow> run_trace" where
  "emit_fatal msg = idle\<lparr>fatal := Some msg\<rparr>"

definition raise_uncaught :: "exn \<Rightarrow> run_trace" where
  "raise_uncaught x = idle\<lparr>uncaught := Some x\<rparr>"

datatype abort = Fatal string | Uncaught exn

fun abort_trace :: "abort \<Rightarrow> run_trace" where
  "abort_trace (Fatal msg) = emit_fatal msg"
| "abort_trace (Uncaught x) = raise_uncaught x"

text \<open>The resolution of the OCIO configuration (lines 170 to 184 of the source).\<close>

definition resolve_ocio :: "env \<Rightarrow> worker \<Rightarrow> abort + string" where
  "resolve_ocio e self =
     (if truthy (ocio_file self) then
        (case path_is_file (os_stat e) (Path_of (or_empty (ocio_file self))) of
           Inl x \<Rightarrow> Inl (Uncaught x)
         | Inr False \<Rightarrow> Inl (Fatal (''OCIO file not found: '' @ or_empty (ocio_file self)))
         | Inr True \<Rightarrow> Inr (or_empty (ocio_file self)))
      else
        (let env_ocio = strip (or_empty (environ_OCIO e)) in
         if env_ocio = [] then Inl (Fatal ''No OCIO specified and $OCIO is not set.'')
         else
           (case path_exists (os_stat e) (Path_of env_ocio) of
              Inl x \<Rightarrow> Inl (Uncaught x)
            | Inr False \<Rightarrow> Inl (Fatal (''$OCIO points to non-existent file: '' @ env_ocio))
            | Inr True \<Rightarrow> Inr env_ocio)))"

text \<open>
  The enumeration (lines 186 to 202). The generator of \<open>glob\<close> or \<open>rglob\<close> yields
  paths and may end with an exception; \<open>is_file\<close> may raise on each of them. Any
  exception leaves the loop for the handler.
\<close>

fun collect :: "filesystem \<Rightarrow> string \<Rightarrow> path list \<Rightarrow> exn option \<Rightarrow> exn + path list" where
  "collect fs flt [] None = Inr []"
| "collect fs flt [] (Some x) = Inl x"
| "collect fs flt (p # ps) fin =
     (case path_is_file fs p of
        Inl x \<Rightarrow> Inl x
      | Inr isf \<Rightarrow>
          (case collect fs flt ps fin of
             Inl x \<Rightarrow> Inl x
           | Inr files \<Rightarrow>
               Inr (if isf \<and> lower (path_suffix p) \<in> set VALID_EXTS
                    then (if flt \<noteq> [] \<and> \<not> str_in flt (path_name p) then files
                          else p # files)
                    else files)))"

definition list_files :: "env \<Rightarrow> worker \<Rightarrow> abort + path list" where
  "list_files e self =
     (case (if recursive self then rglob_star e (root_dir self)
            else glob_star e (root_dir self)) of
        Listing ps fin \<Rightarrow>
          (case collect (os_stat e) (filter_str self) ps fin of
             Inl x \<Rightarrow> Inl (Fatal (''Failed to list files: '' @ str_exn x))
           | Inr files \<Rightarrow> Inr files))"

text \<open>
  \<open>as_completed\<close> yields every future once, in the order of completion. The order is
  a parameter: each pick chooses, among the futures not yet yielded, the next one to
  complete.
\<close>

fun as_completed :: "nat list \<Rightarrow> 'a list \<Rightarrow> 'a list" where
  "as_completed ks [] = []"
| "as_completed [] xs = xs"
| "as_completed (k # ks) xs =
     (let i = k mod length xs
      in xs ! i # as_completed ks (take i xs @ drop (Suc i) xs))"

definition check_mark :: string where
  "check_mark = [CHR 0xE2, CHR 0x9C, CHR 0x93]"

definition bullet :: string where
  "bullet = [CHR 0xE2, CHR 0x80, CHR 0xA2]"

definition ballot_x :: string where
  "ballot_x = [CHR 0xE2, CHR 0x9C, CHR 0x97]"

text \<open>One pass of the loop body after the cancellation test (lines 223 to 234).\<close>

fun tally_step :: "nat \<Rightarrow> outcome \<Rightarrow> run_trace \<Rightarrow> run_trace" where
  "tally_step ntotal (src, success, message) st =
     (let st1 = st\<lparr>received := received st @ [(src, success, message)],
                   n_done := n_done st + 1\<rparr>;
          st2 = (if success
                 then st1\<lparr>n_ok := n_ok st1 + 1,
                          item_done := item_done st1
                            @ [check_mark @ '' '' @ path_name src @ '': '' @ message]\<rparr>
                 else if str_in ''skip'' (lower message)
                 then st1\<lparr>item_done := item_done st1
                            @ [bullet @ '' '' @ path_name src @ '': '' @ message]\<rparr>
                 else st1\<lparr>n_fail := n_fail st1 + 1,
                          item_done := item_done st1
                            @ [ballot_x @ '' '' @ path_name src @ '': '' @ message]\<rparr>)
      in st2\<lparr>progress := progress st2 @ [(n_done st2, ntotal)]\<rparr>)"

text \<open>
  The completion loop (lines 219 to 234). \<open>cancelled i\<close> is the value of
  \<open>self._cancelled\<close> read at the start of iteration \<open>i\<close>; another thread sets it.
\<close>

fun drain :: "(nat \<Rightarrow> bool) \<Rightarrow> nat \<Rightarrow> nat \<Rightarrow> outcome list \<Rightarrow> run_trace \<Rightarrow> run_trace" where
  "drain cancelled ntotal i [] st = st"
| "drain cancelled ntotal i (r # rs) st =
     (if cancelled i
      then st\<lparr>item_done := item_done st @ [''Cancellation requested. Stopping...'']\<rparr>
      else drain cancelled ntotal (Suc i) rs (tally_step ntotal r st))"

text \<open>The reads of a flag that no one sets.\<close>

definition never :: "nat \<Rightarrow> bool" where
  "never i = False"

text \<open>
  The batch (lines 204 to 236). Every file is submitted before the loop starts, and
  leaving the \<open>with\<close> block waits for every submitted task, so each task runs whether
  or not the loop is left early.
\<close>

definition run_batch ::
    "env \<Rightarrow> worker \<Rightarrow> string \<Rightarrow> path list \<Rightarrow> nat list \<Rightarrow> (nat \<Rightarrow> bool) \<Rightarrow> run_trace" where
  "run_batch e self ocio_to_use files picks cancelled =
     (let ntotal = length files in
      if ntotal = 0
      then emit_fatal ''No valid textures in folder (check extensions or filter).''
      else
        (let cpu = max 1 (int (case cpu_count e of None \<Rightarrow> 1
                                | Some n \<Rightarrow> if n = 0 then 1 else n) - 1);
             max_workers = max 1 cpu;
             results = map (\<lambda>p. convert_one e p (Some ocio_to_use) (verbose self)
                                   (maketx_path self)) files;
             st0 = idle\<lparr>dispatched := files,
                        executed := concat (map snd results),
                        item_done := [''Found '' @ str_nat ntotal @ '' texture(s). Using ''
                                      @ str_nat (nat max_workers) @ '' worker(s).'']\<rparr>;
             st1 = drain cancelled ntotal 0 (as_completed picks (map fst results)) st0
         in st1\<lparr>finished := Some (n_ok st1, n_fail st1)\<rparr>))"

definition run :: "env \<Rightarrow> worker \<Rightarrow> nat list \<Rightarrow> (nat \<Rightarrow> bool) \<Rightarrow> run_trace" where
  "run e self picks cancelled =
     (if maketx_path self = []
      then emit_fatal ''maketx.exe not set or not found. Please select the path in the GUI.''
      else
        (case path_exists (os_stat e) (Path_of (maketx_path self)) of
           Inl x \<Rightarrow> raise_uncaught x
         | Inr False \<Rightarrow>
             emit_fatal ''maketx.exe not set or not found. Please select the path in the GUI.''
         | Inr True \<Rightarrow>
             (case resolve_ocio e self of
                Inl a \<Rightarrow> abort_trace a
              | Inr ocio_to_use \<Rightarrow>
                  (case list_files e self of
                     Inl a \<Rightarrow> abort_trace a
                   | Inr files \<Rightarrow> run_batch e self ocio_to_use files picks cancelled))))"

subsection \<open>Counting outcomes\<close>

text \<open>
  The loop tells a skip from a failure by the word \<open>skip\<close> in the lower-cased
  message (line 229). The three kinds of outcome, as the loop counts them:
\<close>

definition has_skip_marker :: "string \<Rightarrow> bool" where
  "has_skip_marker message = str_in ''skip'' (lower message)"

definition is_skip :: "outcome \<Rightarrow> bool" where
  "is_skip r \<longleftrightarrow> \<not> outcome_success r \<and> has_skip_marker (outcome_message r)"

definition is_failure :: "outcome \<Rightarrow> bool" where
  "is_failure r \<longleftrightarrow> \<not> outcome_success r \<and> \<not> has_skip_marker (outcome_message r)"

subsection \<open>A concrete texture folder\<close>

text \<open>
  A folder \<open>/tex\<close> used to run the model: one texture to convert, one whose \<open>.tx\<close> is
  newer, the \<open>.tx\<close> itself, one on which the converter fails, and one whose
  destination cannot be examined.
\<close>

definition tex_wood :: path where
  "tex_wood = PurePath ''/'' [''tex'', ''wood_basecolor.png'']"

definition tex_wood_tx :: path where
  "tex_wood_tx = PurePath ''/'' [''tex'', ''wood_basecolor.png.tx'']"

definition tex_rock :: path where
  "tex_rock = PurePath ''/'' [''tex'', ''rock_height.exr'']"

definition tex_rock_tx :: path where
  "tex_rock_tx = PurePath ''/'' [''tex'', ''rock_height.exr.tx'']"

definition tex_metal :: path where
  "tex_metal = PurePath ''/'' [''tex'', ''Metal_Rough.TIF'']"

definition tex_locked :: path where
  "tex_locked = PurePath ''/'' [''tex'', ''locked.png'']"

definition tex_locked_tx :: path where
  "tex_locked_tx = PurePath ''/'' [''tex'', ''locked.png.tx'']"

definition tex_both_tags :: path where
  "tex_both_tags = PurePath ''/'' [''tex'', ''Rock_DISP_BaseColor.png'']"

definition demo_stat :: filesystem where
  "demo_stat p =
     (if p = tex_locked_tx then Inl (OSError ''[Errno 13] Permission denied'')
      else
        (case map_of
           [(PurePath ''/'' [''opt'', ''maketx''], \<lparr>st_is_reg = True, st_mtime = 1\<rparr>),
            (PurePath ''/'' [''cfg'', ''aces.ocio''], \<lparr>st_is_reg = True, st_mtime = 1\<rparr>),
            (PurePath ''/'' [''cfg''], \<lparr>st_is_reg = False, st_mtime = 1\<rparr>),
            (PurePath ''/'' [''tex''], \<lparr>st_is_reg = False, st_mtime = 1\<rparr>),
            (tex_wood, \<lparr>st_is_reg = True, st_mtime = 10\<rparr>),
            (tex_rock, \<lparr>st_is_reg = True, st_mtime = 10\<rparr>),
            (tex_rock_tx, \<lparr>st_is_reg = True, st_mtime = 20\<rparr>),
            (tex_metal, \<lparr>st_is_reg = True, st_mtime = 5\<rparr>),
            (tex_locked, \<lparr>st_is_reg = True, st_mtime = 5\<rparr>)] p of
           Some st \<Rightarrow> Inr st
         | None \<Rightarrow> Inl (FileNotFoundError ''[Errno 2] No such file or directory'')))"

definition demo_proc :: "string list \<Rightarrow> bool \<Rightarrow> exn + completed_process" where
  "demo_proc cmd capture =
     (if ''/tex/Metal_Rough.TIF'' \<in> set cmd
      then Inr \<lparr>returncode = 1, stdout = (if capture then Some [] else None),
                stderr = Some (''bad file'' @ [CHR 0x0A])\<rparr>
      else Inr \<lparr>returncode = 0,
                stdout = (if capture then Some (''done'' @ [CHR 0x0A]) else None),
                stderr = Some []\<rparr>)"

definition demo_listing :: listing where
  "demo_listing = Listing [tex_wood, tex_rock, tex_rock_tx, tex_metal, tex_locked] None"

definition demo_env :: env where
  "demo_env =
     \<lparr>os_stat = demo_stat, subprocess_run = demo_proc, environ_OCIO = None,
      cpu_count = Some 4, glob_star = (\<lambda>d. demo_listing),
      rglob_star = (\<lambda>d. demo_listing)\<rparr>"

definition demo_worker :: worker where
  "demo_worker =
     ConvertWorker_init (PurePath ''/'' [''tex'']) [] False (Some ''/cfg/aces.ocio'') False
       '' /opt/maketx ''"

definition from_third :: "nat \<Rightarrow> bool" where
  "from_third i = (2 \<le> i)"

text \<open>
  Further inputs: the root directory as a source, a converter that cannot be started,
  an environment whose \<open>OCIO\<close> variable names a missing file, workers without and
  with a wrong explicit configuration, the directory \<open>/cfg\<close> as the variable and as
  the explicit configuration, a variable padded with a no-break space, and the two
  processes the folder's converter returns in verbose mode.
\<close>

definition fs_root :: path where
  "fs_root = PurePath ''/'' []"

definition missing_proc :: "string list \<Rightarrow> bool \<Rightarrow> exn + completed_process" where
  "missing_proc cmd capture =
     Inl (FileNotFoundError ''[Errno 2] No such file or directory: maketx'')"

definition env_no_converter :: env where
  "env_no_converter = demo_env\<lparr>subprocess_run := missing_proc\<rparr>"

definition env_bad_ocio :: env where
  "env_bad_ocio = demo_env\<lparr>environ_OCIO := Some ''/cfg/none.ocio''\<rparr>"

definition worker_no_ocio :: worker where
  "worker_no_ocio = demo_worker\<lparr>ocio_file := None\<rparr>"

definition worker_bad_ocio :: worker where
  "worker_bad_ocio = demo_worker\<lparr>ocio_file := Some ''/cfg/none.ocio''\<rparr>"

definition env_dir_ocio :: env where
  "env_dir_ocio = demo_env\<lparr>environ_OCIO := Some ''/cfg''\<rparr>"

definition worker_dir_ocio :: worker where
  "worker_dir_ocio = demo_worker\<lparr>ocio_file := Some ''/cfg''\<rparr>"

definition env_padded_ocio :: env where
  "env_padded_ocio =
     demo_env\<lparr>environ_OCIO := Some ([CHR 0xC2, CHR 0xA0] @ ''/cfg/aces.ocio'' @ '' '')\<rparr>"

definition wood_cmd :: "string list" where
  "wood_cmd = build_maketx_cmd tex_wood None True (is_color tex_wood)
                (is_displacement tex_wood) ''/opt/maketx''"

definition metal_cmd :: "string list" where
  "metal_cmd = build_maketx_cmd tex_metal None True (is_color tex_metal)
                 (is_displacement tex_metal) ''/opt/maketx''"

definition done_proc :: completed_process where
  "done_proc = \<lparr>returncode = 0, stdout = Some (''done'' @ [CHR 0x0A]), stderr = Some []\<rparr>"

definition bad_file_proc :: completed_process where
  "bad_file_proc = \<lparr>returncode = 1, stdout = Some [],
                     stderr = Some (''bad file'' @ [CHR 0x0A])\<rparr>"

section \<open>Properties\<close>

subsection \<open>Substring tests\<close>

lemma str_in_sublist: "str_in sub s \<longleftrightarrow> sublist sub s"
  by (induction s) (simp_all add: sublist_Cons_right)

lemma digit7_lower_char: "digit7 (lower_char c) = digit7 c"
  by (auto simp: lower_char_def split: option.splits dest!: map_of_SomeD)

lemma take2_append_ascii:
  "\<not> digit7 a \<Longrightarrow>
     (take 2 (cs @ a # r) = [CHR 0x84, CHR 0xAA]) = (take 2 cs = [CHR 0x84, CHR 0xAA])"
  by (cases cs; cases "tl cs") auto

lemma take1_append_ascii:
  "\<not> digit7 a \<Longrightarrow> (take 1 (cs @ a # r) = [CHR 0xB0]) = (take 1 cs = [CHR 0xB0])"
  by (cases cs) auto

lemma lower_kelvin:
  "take 2 cs = [CHR 0x84, CHR 0xAA] \<Longrightarrow> lower (CHR 0xE2 # cs) = CHR ''k'' # lower (drop 2 cs)"
  by simp

lemma lower_dotted:
  "take 1 cs = [CHR 0xB0] \<Longrightarrow>
     lower (CHR 0xC4 # cs) = CHR ''i'' # CHR 0xCC # CHR 0x87 # lower (drop 1 cs)"
  by simp

lemma lower_other:
  "\<not> (c = CHR 0xE2 \<and> take 2 cs = [CHR 0x84, CHR 0xAA]) \<Longrightarrow>
   \<not> (c = CHR 0xC4 \<and> take 1 cs = [CHR 0xB0]) \<Longrightarrow> lower (c # cs) = lower_char c # lower cs"
  by auto

lemma lower_ascii_Cons: "\<not> digit7 c \<Longrightarrow> lower (c # cs) = lower_char c # lower cs"
  by auto

lemma take_2_eq: "take 2 cs = [x, y] \<Longrightarrow> cs = x # y # drop 2 cs"
  by (cases cs; cases "tl cs") auto

lemma take_1_eq: "take 1 cs = [x] \<Longrightarrow> cs = x # drop 1 cs"
  by (cases cs) auto

lemma lower_append_ascii:
  "\<not> digit7 a \<Longrightarrow> lower (xs @ a # r) = lower xs @ lower (a # r)"
proof (induction xs rule: lower.induct)
  case 1
  then show ?case by simp
next
  case (2 c cs)
  show ?case
  proof (cases "c = CHR 0xE2 \<and> take 2 cs = [CHR 0x84, CHR 0xAA]")
    case True
    then have "take 2 cs = [CHR 0x84, CHR 0xAA]" ..
    then have cs: "cs = CHR 0x84 # CHR 0xAA # drop 2 cs"
      by (rule take_2_eq)
    have d: "drop 2 (cs @ a # r) = drop 2 cs @ a # r"
      by (subst cs) simp
    have t: "take 2 (cs @ a # r) = [CHR 0x84, CHR 0xAA]"
      using True take2_append_ascii [OF "2.prems", of cs r] by blast
    have "lower ((c # cs) @ a # r) = CHR ''k'' # lower (drop 2 cs @ a # r)"
      using True lower_kelvin [OF t] by (simp only: append_Cons d)
    also have "\<dots> = CHR ''k'' # lower (drop 2 cs) @ lower (a # r)"
      using "2.IH"(1) [OF True "2.prems"] by (simp only:)
    also have "\<dots> = lower (c # cs) @ lower (a # r)"
      using True lower_kelvin [of cs] by (simp only: append_Cons)
    finally show ?thesis .
  next
    case k: False
    then have k': "\<not> (c = CHR 0xE2 \<and> take 2 (cs @ a # r) = [CHR 0x84, CHR 0xAA])"
      using take2_append_ascii [OF "2.prems", of cs r] by blast
    show ?thesis
    proof (cases "c = CHR 0xC4 \<and> take 1 cs = [CHR 0xB0]")
      case True
      then have "take 1 cs = [CHR 0xB0]" ..
      then have cs: "cs = CHR 0xB0 # drop 1 cs"
        by (rule take_1_eq)
      have d: "drop 1 (cs @ a # r) = drop 1 cs @ a # r"
        by (subst cs) simp
      have t: "take 1 (cs @ a # r) = [CHR 0xB0]"
        using True take1_append_ascii [OF "2.prems", of cs r] by blast
      have "lower ((c # cs) @ a # r)
              = CHR ''i'' # CHR 0xCC # CHR 0x87 # lower (drop 1 cs @ a # r)"
        using True lower_dotted [OF t] by (simp only: append_Cons d)
      also have "\<dots> = CHR ''i'' # CHR 0xCC # CHR 0x87 # lower (drop 1 cs) @ lower (a # r)"
        using "2.IH"(2) [OF k True "2.prems"] by (simp only:)
      also have "\<dots> = lower (c # cs) @ lower (a # r)"
        using True lower_dotted [of cs] by (simp only: append_Cons)
      finally show ?thesis .
    next
      case i: False
      then have i': "\<not> (c = CHR 0xC4 \<and> take 1 (cs @ a # r) = [CHR 0xB0])"
        using take1_append_ascii [OF "2.prems", of cs r] by blast
      have "lower ((c # cs) @ a # r) = lower_char c # lower (cs @ a # r)"
        using lower_other [OF k' i'] by (simp only: append_Cons)
      also have "\<dots> = lower_char c # lower cs @ lower (a # r)"
        using "2.IH"(3) [OF k i "2.prems"] by (simp only:)
      also have "\<dots> = lower (c # cs) @ lower (a # r)"
        using lower_other [OF k i] by (simp only: append_Cons)
      finally show ?thesis .
    qed
  qed
qed

declare lower.simps(2) [simp del]

lemma lower_ascii:
  "list_all (\<lambda>c. \<not> digit7 c) m \<Longrightarrow> lower (m @ r) = map lower_char m @ lower r"
  by (induction m) (simp_all add: lower_ascii_Cons)

lemma lower_plain: "list_all (\<lambda>c. \<not> digit7 c \<and> lower_char c = c) t \<Longrightarrow> lower t = t"
  by (induction t) (simp_all add: lower_ascii_Cons)

lemma lower_Cons_cases:
  obtains (kelvin) "c = CHR 0xE2" "take 2 cs = [CHR 0x84, CHR 0xAA]"
      "lower (c # cs) = CHR ''k'' # lower (drop 2 cs)"
  | (dotted) "c = CHR 0xC4" "take 1 cs = [CHR 0xB0]"
      "lower (c # cs) = CHR ''i'' # CHR 0xCC # CHR 0x87 # lower (drop 1 cs)"
  | (other) "\<not> (c = CHR 0xE2 \<and> take 2 cs = [CHR 0x84, CHR 0xAA])"
      "\<not> (c = CHR 0xC4 \<and> take 1 cs = [CHR 0xB0])"
      "lower (c # cs) = lower_char c # lower cs"
proof (cases "c = CHR 0xE2 \<and> take 2 cs = [CHR 0x84, CHR 0xAA]")
  case True
  then show ?thesis using kelvin lower_kelvin by blast
next
  case k: False
  show ?thesis
  proof (cases "c = CHR 0xC4 \<and> take 1 cs = [CHR 0xB0]")
    case True
    then show ?thesis using dotted lower_dotted by blast
  next
    case False
    with k show ?thesis using other lower_other by blast
  qed
qed

lemma lower_eq_ascii:
  "lower mid = t \<Longrightarrow> list_all (\<lambda>c. \<not> digit7 c \<and> c \<noteq> CHR ''k'') t \<Longrightarrow>
     list_all (\<lambda>c. \<not> digit7 c) mid \<and> map lower_char mid = t"
proof (induction mid arbitrary: t rule: lower.induct)
  case 1
  then show ?case by simp
next
  case (2 c cs)
  show ?case
  proof (cases rule: lower_Cons_cases [of c cs])
    case kelvin
    with "2.prems" show ?thesis by auto
  next
    case dotted
    with "2.prems" show ?thesis by auto
  next
    case other
    from "2.prems"(1) other(3) obtain t' where t: "t = lower_char c # t'" and t': "lower cs = t'"
      by auto
    have "list_all (\<lambda>c. \<not> digit7 c \<and> c \<noteq> CHR ''k'') t'"
      using "2.prems"(2) t by simp
    from "2.IH"(3) [OF other(1,2) t' this]
    have "list_all (\<lambda>c. \<not> digit7 c) cs \<and> map lower_char cs = t'" .
    moreover have "\<not> digit7 c"
      using "2.prems"(2) t by (simp add: digit7_lower_char)
    ultimately show ?thesis
      using t by simp
  qed
qed

lemma prefix_lower_plain:
  "prefix t (lower s) \<Longrightarrow> t \<noteq> [] \<Longrightarrow> last t \<noteq> CHR ''i'' \<Longrightarrow>
   list_all (\<lambda>c. \<not> digit7 c \<and> c \<noteq> CHR ''k'') t \<Longrightarrow>
     \<exists>mid post. s = mid @ post \<and> list_all (\<lambda>c. \<not> digit7 c) mid \<and> map lower_char mid = t"
proof (induction s arbitrary: t rule: lower.induct)
  case 1
  then show ?case by simp
next
  case (2 c cs)
  from "2.prems"(2) obtain a t' where t: "t = a # t'"
    by (cases t) auto
  show ?case
  proof (cases rule: lower_Cons_cases [of c cs])
    case kelvin
    with "2.prems"(1,4) t show ?thesis by auto
  next
    case dotted
    have p: "prefix (a # t') (CHR ''i'' # CHR 0xCC # CHR 0x87 # lower (drop 1 cs))"
      using "2.prems"(1) t dotted(3) by simp
    have False
    proof (cases t')
      case Nil
      with p t "2.prems"(3) show False by simp
    next
      case (Cons b t'')
      with p have "b = CHR 0xCC" by simp
      with Cons t "2.prems"(4) show False by simp
    qed
    then show ?thesis ..
  next
    case other
    have a: "a = lower_char c" and p': "prefix t' (lower cs)"
      using "2.prems"(1) t other(3) by auto
    have c: "\<not> digit7 c"
      using "2.prems"(4) t a by (simp add: digit7_lower_char)
    show ?thesis
    proof (cases "t' = []")
      case True
      have "c # cs = [c] @ cs \<and> list_all (\<lambda>c. \<not> digit7 c) [c] \<and> map lower_char [c] = t"
        using True t a c by simp
      then show ?thesis by blast
    next
      case False
      have "last t' \<noteq> CHR ''i''"
        using "2.prems"(3) t False by simp
      moreover have "list_all (\<lambda>c. \<not> digit7 c \<and> c \<noteq> CHR ''k'') t'"
        using "2.prems"(4) t by simp
      ultimately obtain mid post where
        "cs = mid @ post" "list_all (\<lambda>c. \<not> digit7 c) mid" "map lower_char mid = t'"
        using "2.IH"(3) [OF other(1,2) p' False] by blast
      then have "c # cs = (c # mid) @ post \<and> list_all (\<lambda>c. \<not> digit7 c) (c # mid)
                  \<and> map lower_char (c # mid) = t"
        using t a c by simp
      then show ?thesis by blast
    qed
  qed
qed

lemma str_in_lower_plain:
  assumes "str_in t (lower s)" and "t \<noteq> []" and "last t \<noteq> CHR ''i''"
    and "list_all (\<lambda>c. \<not> digit7 c \<and> c \<noteq> CHR ''k'') t"
  shows "\<exists>pre mid post. s = pre @ mid @ post \<and> list_all (\<lambda>c. \<not> digit7 c) mid
           \<and> map lower_char mid = t"
  using assms(1)
proof (induction s rule: lower.induct)
  case 1
  with assms(2) show ?case by simp
next
  case (2 c cs)
  obtain a t' where t: "t = a # t'"
    using assms(2) by (cases t) auto
  have a: "\<not> digit7 a" "a \<noteq> CHR ''k''"
    using assms(4) t by simp_all
  show ?case
  proof (cases "prefix t (lower (c # cs))")
    case True
    from prefix_lower_plain [OF True assms(2,3,4)] obtain mid post where
      "c # cs = mid @ post" "list_all (\<lambda>c. \<not> digit7 c) mid" "map lower_char mid = t"
      by blast
    then have "c # cs = [] @ mid @ post \<and> list_all (\<lambda>c. \<not> digit7 c) mid
                \<and> map lower_char mid = t"
      by simp
    then show ?thesis by blast
  next
    case np: False
    have "\<exists>n pre mid post. drop n cs = pre @ mid @ post
            \<and> list_all (\<lambda>c. \<not> digit7 c) mid \<and> map lower_char mid = t"
    proof (cases rule: lower_Cons_cases [of c cs])
      case kelvin
      have "str_in t (lower (drop 2 cs))"
        using "2.prems" np unfolding kelvin(3) by simp
      from "2.IH"(1) [OF _ this] kelvin(1,2) show ?thesis by blast
    next
      case dotted
      have "str_in t (lower (drop 1 cs))"
        using "2.prems" np a unfolding dotted(3) t by auto
      moreover have "\<not> (c = CHR 0xE2 \<and> take 2 cs = [CHR 0x84, CHR 0xAA])"
        using dotted(1) by simp
      ultimately show ?thesis
        using "2.IH"(2) dotted(1,2) by blast
    next
      case other
      have "str_in t (lower cs)"
        using "2.prems" np unfolding other(3) by simp
      from "2.IH"(3) [OF other(1,2) this] have
        "\<exists>pre mid post. drop 0 cs = pre @ mid @ post
            \<and> list_all (\<lambda>c. \<not> digit7 c) mid \<and> map lower_char mid = t"
        by simp
      then show ?thesis by blast
    qed
    then obtain n pre mid post where
      d: "drop n cs = pre @ mid @ post" and m: "list_all (\<lambda>c. \<not> digit7 c) mid"
        "map lower_char mid = t"
      by blast
    have "cs = take n cs @ pre @ mid @ post"
      using d append_take_drop_id [of n cs] by simp
    then have "c # cs = (c # take n cs @ pre) @ mid @ post"
      by simp
    then show ?thesis using m by blast
  qed
qed

lemma lower_contains_plain:
  assumes "s = pre @ mid @ post" and "mid \<noteq> []" and "list_all (\<lambda>c. \<not> digit7 c) mid"
  shows "str_in (map lower_char mid) (lower s)"
proof -
  obtain a m where mid: "mid = a # m" and a: "\<not> digit7 a"
    using assms(2,3) by (cases mid) auto
  have "lower s = lower pre @ lower (mid @ post)"
    unfolding assms(1) mid append_Cons using a by (rule lower_append_ascii)
  also have "lower (mid @ post) = map lower_char mid @ lower post"
    using assms(3) by (rule lower_ascii)
  finally show ?thesis
    by (simp add: str_in_sublist)
qed

lemma ci_substring_plain:
  assumes "plain_pattern tag"
  shows "ci_substring tag s \<longleftrightarrow> str_in tag (lower s)"
proof -
  have ne: "tag \<noteq> []" and li: "last tag \<noteq> CHR ''i''"
    and nk: "list_all (\<lambda>c. \<not> digit7 c \<and> c \<noteq> CHR ''k'') tag"
    and pl: "list_all (\<lambda>c. \<not> digit7 c \<and> lower_char c = c) tag"
    using assms by (auto simp: plain_pattern_def list_all_iff)
  have lt: "lower tag = tag"
    using pl by (rule lower_plain)
  show ?thesis
  proof
    assume "ci_substring tag s"
    then obtain pre mid post where s: "s = pre @ mid @ post" and m: "lower mid = tag"
      by (auto simp: ci_substring_def lt)
    from lower_eq_ascii [OF m nk] have am: "list_all (\<lambda>c. \<not> digit7 c) mid"
      and mm: "map lower_char mid = tag" by simp_all
    have "mid \<noteq> []" using mm ne by auto
    from lower_contains_plain [OF s this am] show "str_in tag (lower s)"
      by (simp only: mm)
  next
    assume "str_in tag (lower s)"
    from str_in_lower_plain [OF this ne li nk] obtain pre mid post where
      s: "s = pre @ mid @ post" and am: "list_all (\<lambda>c. \<not> digit7 c) mid"
      and mm: "map lower_char mid = tag"
      by blast
    have "lower mid = map lower_char mid"
      using lower_ascii [OF am, of "[]"] by simp
    then have "lower mid = lower tag"
      by (simp only: mm lt)
    with s show "ci_substring tag s"
      unfolding ci_substring_def by blast
  qed
qed

lemma str_in_append_right: "str_in sub ys \<Longrightarrow> str_in sub (xs @ ys)"
  by (simp add: str_in_sublist sublist_append)

lemma plain_DSP_TAGS: "tag \<in> set DSP_TAGS \<Longrightarrow> plain_pattern tag"
proof -
  have "list_all plain_pattern DSP_TAGS"
    by code_simp
  then show "tag \<in> set DSP_TAGS \<Longrightarrow> plain_pattern tag"
    by (simp add: list_all_iff)
qed

lemma plain_COLOR_TAGS: "tag \<in> set COLOR_TAGS \<Longrightarrow> plain_pattern tag"
proof -
  have "list_all plain_pattern COLOR_TAGS"
    by code_simp
  then show "tag \<in> set COLOR_TAGS \<Longrightarrow> plain_pattern tag"
    by (simp add: list_all_iff)
qed

lemma is_displacement_iff:
  "is_displacement f \<longleftrightarrow> (\<exists>tag\<in>set DSP_TAGS. ci_substring tag (path_name f))"
  by (auto simp: is_displacement_def list_ex_iff ci_substring_plain plain_DSP_TAGS)

lemma color_match_iff:
  "list_ex (\<lambda>tag. str_in tag (lower s)) COLOR_TAGS
     \<longleftrightarrow> (\<exists>tag\<in>set COLOR_TAGS. ci_substring tag s)"
  by (auto simp: list_ex_iff ci_substring_plain plain_COLOR_TAGS)

text \<open>
  The two code points whose lower case has an ASCII letter, and white space beyond
  ASCII: a message with the KELVIN SIGN in \<open>SKIPPED\<close> has the skip marker, one with
  U+0130 in \<open>skip\<close> has not, and a no-break space is stripped.
\<close>

lemma unicode_lower_strip:
  "has_skip_marker (''maketx failed: S'' @ [CHR 0xE2, CHR 0x84, CHR 0xAA] @ ''IPPED tile'')
   \<and> \<not> has_skip_marker (''maketx failed: sk'' @ [CHR 0xC4, CHR 0xB0] @ ''p'')
   \<and> strip (''done'' @ [CHR 0xC2, CHR 0xA0, CHR 0x0A]) = ''done''
   \<and> strip [CHR 0xE2, CHR 0x80, CHR 0x83] = []"
  by code_simp

subsection \<open>The classifier\<close>

text \<open>
  Claim C2. A file name that contains one of the displacement tags \<open>dsp\<close>, \<open>disp\<close>,
  \<open>displacement\<close>, \<open>zdisp\<close>, \<open>height\<close> as a case-insensitive substring is classified
  as displacement and not as colour, whatever else the name contains. A file name
  with no displacement tag is not displacement, and it is colour exactly when it
  contains one of \<open>srgb\<close>, \<open>basecolor\<close>, \<open>albedo\<close>, \<open>color\<close>, \<open>diffuse\<close> as a
  case-insensitive substring.
\<close>

theorem classifier_tags:
  "((\<exists>tag\<in>set DSP_TAGS. ci_substring tag (path_name f))
      \<longrightarrow> is_displacement f \<and> \<not> is_color f)
   \<and> (\<not> (\<exists>tag\<in>set DSP_TAGS. ci_substring tag (path_name f))
      \<longrightarrow> \<not> is_displacement f
          \<and> (is_color f \<longleftrightarrow> (\<exists>tag\<in>set COLOR_TAGS. ci_substring tag (path_name f))))"
proof -
  have "is_color f \<longleftrightarrow>
          \<not> is_displacement f \<and> (\<exists>tag\<in>set COLOR_TAGS. ci_substring tag (path_name f))"
    by (simp add: is_color_def color_match_iff)
  then show ?thesis
    using is_displacement_iff [of f] by blast
qed

text \<open>
  A name with a displacement and a colour tag, a name with a colour tag only, and a
  name with neither.
\<close>

theorem classifier_tags_witness:
  "(\<exists>tag\<in>set DSP_TAGS. ci_substring tag (path_name tex_both_tags))
   \<and> (\<exists>tag\<in>set COLOR_TAGS. ci_substring tag (path_name tex_both_tags))
   \<and> is_displacement tex_both_tags \<and> \<not> is_color tex_both_tags
   \<and> \<not> (\<exists>tag\<in>set DSP_TAGS. ci_substring tag (path_name tex_wood))
   \<and> (\<exists>tag\<in>set COLOR_TAGS. ci_substring tag (path_name tex_wood))
   \<and> \<not> is_displacement tex_wood \<and> is_color tex_wood
   \<and> \<not> (\<exists>tag\<in>set DSP_TAGS. ci_substring tag (path_name tex_metal))
   \<and> \<not> (\<exists>tag\<in>set COLOR_TAGS. ci_substring tag (path_name tex_metal))
   \<and> \<not> is_displacement tex_metal \<and> \<not> is_color tex_metal"
proof -
  have "is_displacement tex_both_tags"
    by code_simp
  then have a: "\<exists>tag\<in>set DSP_TAGS. ci_substring tag (path_name tex_both_tags)"
    by (simp only: is_displacement_iff simp_thms)
  have "list_ex (\<lambda>tag. str_in tag (lower (path_name tex_both_tags))) COLOR_TAGS"
    by code_simp
  then have a': "\<exists>tag\<in>set COLOR_TAGS. ci_substring tag (path_name tex_both_tags)"
    by (simp only: color_match_iff simp_thms)
  have "\<not> is_displacement tex_wood"
    by code_simp
  then have b: "\<not> (\<exists>tag\<in>set DSP_TAGS. ci_substring tag (path_name tex_wood))"
    by (simp only: is_displacement_iff simp_thms)
  have "list_ex (\<lambda>tag. str_in tag (lower (path_name tex_wood))) COLOR_TAGS"
    by code_simp
  then have b': "\<exists>tag\<in>set COLOR_TAGS. ci_substring tag (path_name tex_wood)"
    by (simp only: color_match_iff simp_thms)
  have "\<not> is_displacement tex_metal"
    by code_simp
  then have c: "\<not> (\<exists>tag\<in>set DSP_TAGS. ci_substring tag (path_name tex_metal))"
    by (simp only: is_displacement_iff simp_thms)
  have "\<not> list_ex (\<lambda>tag. str_in tag (lower (path_name tex_metal))) COLOR_TAGS"
    by code_simp
  then have c': "\<not> (\<exists>tag\<in>set COLOR_TAGS. ci_substring tag (path_name tex_metal))"
    by (simp only: color_match_iff simp_thms)
  show ?thesis
    using a a' b b' c c' classifier_tags [of tex_both_tags] classifier_tags [of tex_wood]
      classifier_tags [of tex_metal]
    by blast
qed

subsection \<open>The staleness check\<close>

text \<open>
  Claim C3. When the destination does not exist, \<open>needs_conversion\<close> returns \<open>True\<close>.
  When the destination and the source can both be examined, it returns \<open>True\<close>
  exactly when the modification time of the source is strictly greater than that of
  the destination; equal times give \<open>False\<close>.
\<close>

theorem needs_conversion_policy:
  "(path_exists fs dst = Inr False \<longrightarrow> needs_conversion fs src dst = Inr True)
   \<and> (fs dst = Inr d \<and> fs src = Inr s \<longrightarrow>
        needs_conversion fs src dst = Inr (st_mtime s > st_mtime d)
        \<and> (st_mtime s = st_mtime d \<longrightarrow> needs_conversion fs src dst = Inr False))"
  by (simp add: needs_conversion_def path_exists_def)

text \<open>
  An absent destination, a newer destination, an older destination and equal times.
\<close>

theorem needs_conversion_policy_witness:
  "path_exists demo_stat tex_wood_tx = Inr False
   \<and> needs_conversion demo_stat tex_wood tex_wood_tx = Inr True
   \<and> demo_stat tex_rock = Inr \<lparr>st_is_reg = True, st_mtime = 10\<rparr>
   \<and> demo_stat tex_rock_tx = Inr \<lparr>st_is_reg = True, st_mtime = 20\<rparr>
   \<and> demo_stat tex_wood = Inr \<lparr>st_is_reg = True, st_mtime = 10\<rparr>
   \<and> needs_conversion demo_stat tex_rock tex_rock_tx = Inr False
   \<and> needs_conversion demo_stat tex_rock_tx tex_rock = Inr True
   \<and> needs_conversion demo_stat tex_rock tex_wood = Inr False"
proof -
  have m: "path_exists demo_stat tex_wood_tx = Inr False"
    by code_simp
  have r: "demo_stat tex_rock = Inr \<lparr>st_is_reg = True, st_mtime = 10\<rparr>"
    by code_simp
  have t: "demo_stat tex_rock_tx = Inr \<lparr>st_is_reg = True, st_mtime = 20\<rparr>"
    by code_simp
  have w: "demo_stat tex_wood = Inr \<lparr>st_is_reg = True, st_mtime = 10\<rparr>"
    by code_simp
  show ?thesis
    using m r t w
      needs_conversion_policy [where fs = demo_stat and src = tex_wood and dst = tex_wood_tx]
      needs_conversion_policy [where fs = demo_stat and src = tex_rock and dst = tex_rock_tx
        and s = "\<lparr>st_is_reg = True, st_mtime = 10\<rparr>"
        and d = "\<lparr>st_is_reg = True, st_mtime = 20\<rparr>"]
      needs_conversion_policy [where fs = demo_stat and src = tex_rock_tx and dst = tex_rock
        and s = "\<lparr>st_is_reg = True, st_mtime = 20\<rparr>"
        and d = "\<lparr>st_is_reg = True, st_mtime = 10\<rparr>"]
      needs_conversion_policy [where fs = demo_stat and src = tex_rock and dst = tex_wood
        and s = "\<lparr>st_is_reg = True, st_mtime = 10\<rparr>"
        and d = "\<lparr>st_is_reg = True, st_mtime = 10\<rparr>"]
    by simp
qed

text \<open>
  When the destination exists and the source does not, \<open>src.stat()\<close> raises and the
  function returns nothing.
\<close>

lemma needs_conversion_source_missing:
  "fs dst = Inr d \<Longrightarrow> fs src = Inl x \<Longrightarrow> needs_conversion fs src dst = Inl x"
  by (simp add: needs_conversion_def path_exists_def)

subsection \<open>The command builder\<close>

text \<open>
  Claim C4. The argument list is the converter path and the source, the optional
  \<open>--colorconfig\<close> pair, the thirteen fixed arguments, then \<open>--colorconvert\<close> followed
  by \<open>Utility - sRGB - Texture\<close> when the colour flag is set and by \<open>Utility - Raw\<close>
  otherwise, then \<open>ACES - ACEScg\<close>, then \<open>-d\<close> followed by \<open>float\<close> when the
  displacement flag is set and by \<open>half\<close> otherwise, then the optional \<open>-v\<close> and
  \<open>--threads 1\<close>. So it contains the adjacent pair \<open>-d float\<close> or \<open>-d half\<close> and the
  adjacent colour pair the flags select. Equal inputs give equal lists.
\<close>

theorem build_maketx_cmd_flags:
  "build_maketx_cmd src ocio_path v is_col is_dsp mk =
     [mk, str_path src]
     @ (if truthy ocio_path then [''--colorconfig'', or_empty ocio_path] else [])
     @ [''--opaque-detect'', ''--constant-color-detect'', ''--monochrome-detect'',
        ''--fixnan'', ''box3'', ''-u'', ''--filter'', ''lanczos3'',
        ''--attrib'', ''tiff:half'', ''1'', ''--unpremult'', ''--oiio'']
     @ [''--colorconvert'',
        if is_col then ''Utility - sRGB - Texture'' else ''Utility - Raw'',
        ''ACES - ACEScg'',
        ''-d'',
        if is_dsp then ''float'' else ''half'']
     @ (if v then [''-v''] else [])
     @ [''--threads'', ''1'']
   \<and> sublist (if is_dsp then [''-d'', ''float''] else [''-d'', ''half''])
       (build_maketx_cmd src ocio_path v is_col is_dsp mk)
   \<and> sublist (if is_col then [''Utility - sRGB - Texture'', ''ACES - ACEScg'']
              else [''Utility - Raw'', ''ACES - ACEScg''])
       (build_maketx_cmd src ocio_path v is_col is_dsp mk)
   \<and> (src' = src \<and> ocio_path' = ocio_path \<and> v' = v \<and> is_col' = is_col
        \<and> is_dsp' = is_dsp \<and> mk' = mk \<longrightarrow>
        build_maketx_cmd src' ocio_path' v' is_col' is_dsp' mk'
          = build_maketx_cmd src ocio_path v is_col is_dsp mk)"
  by (cases is_dsp; cases is_col; cases v; cases "truthy ocio_path";
      simp add: build_maketx_cmd_def sublist_code)

text \<open>
  The commands for a displacement texture and for a colour texture: each has its own
  pair and not the other's.
\<close>

theorem build_maketx_cmd_flags_witness:
  "build_maketx_cmd tex_rock (Some ''/cfg/aces.ocio'') False False True ''/opt/maketx''
     = [''/opt/maketx'', ''/tex/rock_height.exr'', ''--colorconfig'', ''/cfg/aces.ocio'',
        ''--opaque-detect'', ''--constant-color-detect'', ''--monochrome-detect'',
        ''--fixnan'', ''box3'', ''-u'', ''--filter'', ''lanczos3'',
        ''--attrib'', ''tiff:half'', ''1'', ''--unpremult'', ''--oiio'',
        ''--colorconvert'', ''Utility - Raw'', ''ACES - ACEScg'', ''-d'', ''float'',
        ''--threads'', ''1'']
   \<and> sublist [''-d'', ''float'']
       (build_maketx_cmd tex_rock (Some ''/cfg/aces.ocio'') False False True ''/opt/maketx'')
   \<and> sublist [''Utility - Raw'', ''ACES - ACEScg'']
       (build_maketx_cmd tex_rock (Some ''/cfg/aces.ocio'') False False True ''/opt/maketx'')
   \<and> \<not> sublist [''-d'', ''half'']
       (build_maketx_cmd tex_rock (Some ''/cfg/aces.ocio'') False False True ''/opt/maketx'')
   \<and> build_maketx_cmd tex_wood None True True False ''/opt/maketx''
     = [''/opt/maketx'', ''/tex/wood_basecolor.png'',
        ''--opaque-detect'', ''--constant-color-detect'', ''--monochrome-detect'',
        ''--fixnan'', ''box3'', ''-u'', ''--filter'', ''lanczos3'',
        ''--attrib'', ''tiff:half'', ''1'', ''--unpremult'', ''--oiio'',
        ''--colorconvert'', ''Utility - sRGB - Texture'', ''ACES - ACEScg'', ''-d'', ''half'',
        ''-v'', ''--threads'', ''1'']
   \<and> \<not> sublist [''Utility - Raw'', ''ACES - ACEScg'']
       (build_maketx_cmd tex_wood None True True False ''/opt/maketx'')"
proof -
  have p: "str_path tex_rock = ''/tex/rock_height.exr''"
    "str_path tex_wood = ''/tex/wood_basecolor.png''"
    by code_simp+
  note r = build_maketx_cmd_flags [of tex_rock "Some ''/cfg/aces.ocio''" False False True
      "''/opt/maketx''" tex_rock "Some ''/cfg/aces.ocio''" False False True "''/opt/maketx''"]
  note w = build_maketx_cmd_flags [of tex_wood None True True False "''/opt/maketx''"
      tex_wood None True True False "''/opt/maketx''"]
  have r1: "build_maketx_cmd tex_rock (Some ''/cfg/aces.ocio'') False False True ''/opt/maketx''
     = [''/opt/maketx'', ''/tex/rock_height.exr'', ''--colorconfig'', ''/cfg/aces.ocio'',
        ''--opaque-detect'', ''--constant-color-detect'', ''--monochrome-detect'',
        ''--fixnan'', ''box3'', ''-u'', ''--filter'', ''lanczos3'',
        ''--attrib'', ''tiff:half'', ''1'', ''--unpremult'', ''--oiio'',
        ''--colorconvert'', ''Utility - Raw'', ''ACES - ACEScg'', ''-d'', ''float'',
        ''--threads'', ''1'']"
    using r by (simp add: p)
  have w1: "build_maketx_cmd tex_wood None True True False ''/opt/maketx''
     = [''/opt/maketx'', ''/tex/wood_basecolor.png'',
        ''--opaque-detect'', ''--constant-color-detect'', ''--monochrome-detect'',
        ''--fixnan'', ''box3'', ''-u'', ''--filter'', ''lanczos3'',
        ''--attrib'', ''tiff:half'', ''1'', ''--unpremult'', ''--oiio'',
        ''--colorconvert'', ''Utility - sRGB - Texture'', ''ACES - ACEScg'', ''-d'', ''half'',
        ''-v'', ''--threads'', ''1'']"
    using w by (simp add: p)
  have r2: "sublist [''-d'', ''float'']
       (build_maketx_cmd tex_rock (Some ''/cfg/aces.ocio'') False False True ''/opt/maketx'')"
    using r [THEN conjunct2, THEN conjunct1] by (simp only: if_True)
  have r2': "sublist [''Utility - Raw'', ''ACES - ACEScg'']
       (build_maketx_cmd tex_rock (Some ''/cfg/aces.ocio'') False False True ''/opt/maketx'')"
    using r [THEN conjunct2, THEN conjunct2, THEN conjunct1] by (simp only: if_False)
  have r3: "\<not> sublist [''-d'', ''half'']
       (build_maketx_cmd tex_rock (Some ''/cfg/aces.ocio'') False False True ''/opt/maketx'')"
    unfolding r1 by code_simp
  have w3: "\<not> sublist [''Utility - Raw'', ''ACES - ACEScg'']
       (build_maketx_cmd tex_wood None True True False ''/opt/maketx'')"
    unfolding w1 by code_simp
  show ?thesis
    using r1 r2 r2' r3 w1 w3 by blast
qed

subsection \<open>The conversion runner\<close>

lemma is_skip_already: "is_skip (src, False, ''Already a .tx; skipping.'')"
  unfolding is_skip_def outcome_success_def outcome_message_def has_skip_marker_def
  by code_simp

lemma is_skip_up_to_date:
  "is_skip (src, False, ''Up-to-date .tx exists: '' @ n @ ''; skipping.'')"
proof -
  have "str_in ''skip'' (lower ''; skipping.'')"
    by code_simp
  then have "str_in ''skip''
               (lower (''Up-to-date .tx exists: '' @ n) @ lower (CHR '';'' # '' skipping.''))"
    by (intro str_in_append_right) simp
  moreover have "lower ((''Up-to-date .tx exists: '' @ n) @ CHR '';'' # '' skipping.'')
                   = lower (''Up-to-date .tx exists: '' @ n) @ lower (CHR '';'' # '' skipping.'')"
    by (rule lower_append_ascii) simp
  ultimately have "has_skip_marker (''Up-to-date .tx exists: '' @ n @ ''; skipping.'')"
    unfolding has_skip_marker_def by simp
  then show ?thesis
    by (simp only: is_skip_def outcome_success_def outcome_message_def fst_conv snd_conv
        simp_thms)
qed

text \<open>
  Claim C5. For a source whose lower-cased suffix is \<open>.tx\<close>, \<open>convert_one\<close> starts no
  external process and returns the outcome \<open>(src, False, "Already a .tx; skipping.")\<close>.
  For any other source whose destination \<open>needs_conversion\<close> reports as up to date, it
  starts no external process and returns \<open>(src, False, "Up-to-date .tx exists: ...;
  skipping.")\<close>. Both outcomes are counted as skips.
\<close>

theorem convert_one_skips_without_process:
  "(lower (path_suffix src) = ''.tx'' \<longrightarrow>
      convert_one e src ocio_path v mk = ((src, False, ''Already a .tx; skipping.''), [])
      \<and> is_skip (fst (convert_one e src ocio_path v mk)))
   \<and> (lower (path_suffix src) \<noteq> ''.tx''
       \<and> with_suffix src (path_suffix src @ ''.tx'') = Inr dst
       \<and> needs_conversion (os_stat e) src dst = Inr False \<longrightarrow>
      convert_one e src ocio_path v mk
        = ((src, False, ''Up-to-date .tx exists: '' @ path_name dst @ ''; skipping.''), [])
      \<and> is_skip (fst (convert_one e src ocio_path v mk)))"
proof (intro conjI impI)
  assume "lower (path_suffix src) = ''.tx''"
  then show a: "convert_one e src ocio_path v mk
                  = ((src, False, ''Already a .tx; skipping.''), [])"
    by (simp add: convert_one_def convert_one_try_def)
  show "is_skip (fst (convert_one e src ocio_path v mk))"
    by (simp only: a fst_conv is_skip_already)
next
  assume "lower (path_suffix src) \<noteq> ''.tx''
          \<and> with_suffix src (path_suffix src @ ''.tx'') = Inr dst
          \<and> needs_conversion (os_stat e) src dst = Inr False"
  then show b: "convert_one e src ocio_path v mk
                  = ((src, False,
                      ''Up-to-date .tx exists: '' @ path_name dst @ ''; skipping.''), [])"
    by (simp add: convert_one_def convert_one_try_def)
  show "is_skip (fst (convert_one e src ocio_path v mk))"
    by (simp only: b fst_conv is_skip_up_to_date)
qed

text \<open>A \<open>.tx\<close> file passed as the source, and a texture whose \<open>.tx\<close> is newer.\<close>

theorem convert_one_skips_without_process_witness:
  "lower (path_suffix tex_rock_tx) = ''.tx''
   \<and> convert_one demo_env tex_rock_tx None False ''/opt/maketx''
       = ((tex_rock_tx, False, ''Already a .tx; skipping.''), [])
   \<and> lower (path_suffix tex_rock) \<noteq> ''.tx''
   \<and> with_suffix tex_rock (path_suffix tex_rock @ ''.tx'') = Inr tex_rock_tx
   \<and> needs_conversion (os_stat demo_env) tex_rock tex_rock_tx = Inr False
   \<and> convert_one demo_env tex_rock None False ''/opt/maketx''
       = ((tex_rock, False,
           ''Up-to-date .tx exists: '' @ path_name tex_rock_tx @ ''; skipping.''), [])"
proof -
  have a: "lower (path_suffix tex_rock_tx) = ''.tx''"
    by code_simp
  have b: "lower (path_suffix tex_rock) \<noteq> ''.tx''"
    by code_simp
  have c: "with_suffix tex_rock (path_suffix tex_rock @ ''.tx'') = Inr tex_rock_tx"
    by code_simp
  have d: "needs_conversion (os_stat demo_env) tex_rock tex_rock_tx = Inr False"
    by code_simp
  show ?thesis
    using a b c d
      convert_one_skips_without_process [where src = tex_rock_tx and e = demo_env
        and ocio_path = None and v = False and mk = "''/opt/maketx''"]
      convert_one_skips_without_process [where src = tex_rock and dst = tex_rock_tx
        and e = demo_env and ocio_path = None and v = False and mk = "''/opt/maketx''"]
    by blast
qed

lemma strip_empty: "strip [] = []"
  by code_simp

lemma strip_or_empty: "\<not> truthy x \<Longrightarrow> strip (or_empty x) = []"
  by (cases x) (simp_all add: strip_empty)

text \<open>
  Claim C6, as amended. When \<open>convert_one\<close> runs the external process, exit status
  zero gives a success outcome whose message is the captured standard output with
  the white space at both ends removed, when verbose mode is on and that stripped
  output is not empty, and \<open>OK\<close> otherwise. A nonzero exit status gives a failure
  outcome whose message is \<open>maketx failed: \<close> followed by the captured standard
  error with the white space at both ends removed, or by \<open>Unknown error\<close> when the
  stripped standard error is empty.
\<close>

theorem convert_one_exit_status:
  assumes "lower (path_suffix src) \<noteq> ''.tx''"
    and "with_suffix src (path_suffix src @ ''.tx'') = Inr dst"
    and "needs_conversion (os_stat e) src dst = Inr True"
    and "subprocess_run e
           (build_maketx_cmd src ocio_path v (is_color src) (is_displacement src) mk) v
         = Inr proc"
  shows "(returncode proc = 0 \<longrightarrow>
            fst (convert_one e src ocio_path v mk)
              = (src, True,
                 if v \<and> strip (or_empty (stdout proc)) \<noteq> []
                 then strip (or_empty (stdout proc)) else ''OK''))
         \<and> (returncode proc \<noteq> 0 \<longrightarrow>
            fst (convert_one e src ocio_path v mk)
              = (src, False,
                 ''maketx failed: ''
                 @ (if strip (or_empty (stderr proc)) \<noteq> []
                    then strip (or_empty (stderr proc)) else ''Unknown error'')))
         \<and> snd (convert_one e src ocio_path v mk)
              = [build_maketx_cmd src ocio_path v (is_color src) (is_displacement src) mk]"
  using assms
  by (auto simp: convert_one_def convert_one_try_def Let_def strip_or_empty)

text \<open>A verbose conversion that succeeds and one on which the converter fails.\<close>

theorem convert_one_exit_status_witness:
  "lower (path_suffix tex_wood) \<noteq> ''.tx''
   \<and> with_suffix tex_wood (path_suffix tex_wood @ ''.tx'') = Inr tex_wood_tx
   \<and> needs_conversion (os_stat demo_env) tex_wood tex_wood_tx = Inr True
   \<and> subprocess_run demo_env wood_cmd True = Inr done_proc
   \<and> fst (convert_one demo_env tex_wood None True ''/opt/maketx'') = (tex_wood, True, ''done'')
   \<and> snd (convert_one demo_env tex_wood None True ''/opt/maketx'') = [wood_cmd]
   \<and> subprocess_run demo_env metal_cmd True = Inr bad_file_proc
   \<and> fst (convert_one demo_env tex_metal None True ''/opt/maketx'')
       = (tex_metal, False, ''maketx failed: bad file'')"
proof -
  have a: "lower (path_suffix tex_wood) \<noteq> ''.tx''"
    by code_simp
  have b: "with_suffix tex_wood (path_suffix tex_wood @ ''.tx'') = Inr tex_wood_tx"
    by code_simp
  have c: "needs_conversion (os_stat demo_env) tex_wood tex_wood_tx = Inr True"
    by code_simp
  have d: "subprocess_run demo_env wood_cmd True = Inr done_proc"
    by code_simp
  have d': "subprocess_run demo_env
              (build_maketx_cmd tex_wood None True (is_color tex_wood)
                 (is_displacement tex_wood) ''/opt/maketx'') True = Inr done_proc"
    using d by (simp only: wood_cmd_def)
  have o: "returncode done_proc = 0"
    "(if True \<and> strip (or_empty (stdout done_proc)) \<noteq> []
      then strip (or_empty (stdout done_proc)) else ''OK'') = ''done''"
    by code_simp+
  have a2: "lower (path_suffix tex_metal) \<noteq> ''.tx''"
    by code_simp
  have b2: "with_suffix tex_metal (path_suffix tex_metal @ ''.tx'')
              = Inr (PurePath ''/'' [''tex'', ''Metal_Rough.TIF.tx''])"
    by code_simp
  have c2: "needs_conversion (os_stat demo_env) tex_metal
              (PurePath ''/'' [''tex'', ''Metal_Rough.TIF.tx'']) = Inr True"
    by code_simp
  have d2: "subprocess_run demo_env metal_cmd True = Inr bad_file_proc"
    by code_simp
  have d2': "subprocess_run demo_env
              (build_maketx_cmd tex_metal None True (is_color tex_metal)
                 (is_displacement tex_metal) ''/opt/maketx'') True = Inr bad_file_proc"
    using d2 by (simp only: metal_cmd_def)
  have o2: "returncode bad_file_proc \<noteq> 0"
    "''maketx failed: '' @ (if strip (or_empty (stderr bad_file_proc)) \<noteq> []
      then strip (or_empty (stderr bad_file_proc)) else ''Unknown error'')
     = ''maketx failed: bad file''"
    by code_simp+
  note t1 = convert_one_exit_status [OF a b c d']
  note t2 = convert_one_exit_status [OF a2 b2 c2 d2']
  have r1: "fst (convert_one demo_env tex_wood None True ''/opt/maketx'')
              = (tex_wood, True, ''done'')"
    using t1 o by (simp only: simp_thms)
  have r1': "snd (convert_one demo_env tex_wood None True ''/opt/maketx'') = [wood_cmd]"
    using t1 by (simp only: wood_cmd_def)
  have r2: "fst (convert_one demo_env tex_metal None True ''/opt/maketx'')
              = (tex_metal, False, ''maketx failed: bad file'')"
    using t2 o2 by (simp only: simp_thms)
  show ?thesis
    using a b c d r1 r1' d2 r2 by blast
qed

text \<open>
  The message is not the captured standard output itself: in verbose mode the
  converter prints \<open>done\<close> and a line feed, and the message is \<open>done\<close>.
\<close>

theorem convert_one_stdout_counterexample:
  "subprocess_run demo_env wood_cmd True = Inr done_proc
   \<and> returncode done_proc = 0
   \<and> stdout done_proc = Some (''done'' @ [CHR 0x0A])
   \<and> snd (convert_one demo_env tex_wood None True ''/opt/maketx'') = [wood_cmd]
   \<and> outcome_success (fst (convert_one demo_env tex_wood None True ''/opt/maketx''))
   \<and> outcome_message (fst (convert_one demo_env tex_wood None True ''/opt/maketx''))
       = ''done''
   \<and> outcome_message (fst (convert_one demo_env tex_wood None True ''/opt/maketx''))
       \<noteq> ''done'' @ [CHR 0x0A]"
  by code_simp

text \<open>
  Claim C7. Whatever the inputs, \<open>convert_one\<close> returns an outcome for the source it
  was given. When an exception leaves the \<open>try\<close> block, the outcome is the failure
  \<open>(src, False, "Exception: " + str(e))\<close>; this is so when \<open>with_suffix\<close> raises,
  when the staleness check raises, and when \<open>subprocess.run\<close> raises.
\<close>

theorem convert_one_catches:
  "outcome_src (fst (convert_one e src ocio_path v mk)) = src
   \<and> (fst (convert_one_try e src ocio_path v mk) = Inl x \<longrightarrow>
        fst (convert_one e src ocio_path v mk) = (src, False, ''Exception: '' @ str_exn x))
   \<and> (lower (path_suffix src) \<noteq> ''.tx''
       \<and> with_suffix src (path_suffix src @ ''.tx'') = Inl x \<longrightarrow>
        convert_one e src ocio_path v mk = ((src, False, ''Exception: '' @ str_exn x), []))
   \<and> (lower (path_suffix src) \<noteq> ''.tx''
       \<and> with_suffix src (path_suffix src @ ''.tx'') = Inr dst
       \<and> needs_conversion (os_stat e) src dst = Inl x \<longrightarrow>
        convert_one e src ocio_path v mk = ((src, False, ''Exception: '' @ str_exn x), []))
   \<and> (lower (path_suffix src) \<noteq> ''.tx''
       \<and> with_suffix src (path_suffix src @ ''.tx'') = Inr dst
       \<and> needs_conversion (os_stat e) src dst = Inr True
       \<and> subprocess_run e
           (build_maketx_cmd src ocio_path v (is_color src) (is_displacement src) mk) v
          = Inl x \<longrightarrow>
        fst (convert_one e src ocio_path v mk) = (src, False, ''Exception: '' @ str_exn x))"
  by (auto simp: convert_one_def convert_one_try_def Let_def outcome_src_def
      split: sum.splits bool.splits prod.splits)

text \<open>
  The root directory as a source (no name to extend), a destination that cannot be
  examined, and a converter that cannot be started.
\<close>

theorem convert_one_catches_witness:
  "lower (path_suffix fs_root) \<noteq> ''.tx''
   \<and> with_suffix fs_root (path_suffix fs_root @ ''.tx'')
       = Inl (ValueError ''PosixPath('/') has an empty name'')
   \<and> convert_one demo_env fs_root None False ''/opt/maketx''
       = ((fs_root, False, ''Exception: PosixPath('/') has an empty name''), [])
   \<and> lower (path_suffix tex_locked) \<noteq> ''.tx''
   \<and> with_suffix tex_locked (path_suffix tex_locked @ ''.tx'') = Inr tex_locked_tx
   \<and> needs_conversion (os_stat demo_env) tex_locked tex_locked_tx
       = Inl (OSError ''[Errno 13] Permission denied'')
   \<and> fst (convert_one_try demo_env tex_locked None False ''/opt/maketx'')
       = Inl (OSError ''[Errno 13] Permission denied'')
   \<and> convert_one demo_env tex_locked None False ''/opt/maketx''
       = ((tex_locked, False, ''Exception: [Errno 13] Permission denied''), [])
   \<and> lower (path_suffix tex_wood) \<noteq> ''.tx''
   \<and> with_suffix tex_wood (path_suffix tex_wood @ ''.tx'') = Inr tex_wood_tx
   \<and> needs_conversion (os_stat env_no_converter) tex_wood tex_wood_tx = Inr True
   \<and> subprocess_run env_no_converter
        (build_maketx_cmd tex_wood None False (is_color tex_wood) (is_displacement tex_wood)
           ''/opt/maketx'') False
       = Inl (FileNotFoundError ''[Errno 2] No such file or directory: maketx'')
   \<and> fst (convert_one env_no_converter tex_wood None False ''/opt/maketx'')
       = (tex_wood, False, ''Exception: [Errno 2] No such file or directory: maketx'')
   \<and> outcome_src (fst (convert_one env_no_converter tex_wood None False ''/opt/maketx''))
       = tex_wood"
proof -
  have a1: "lower (path_suffix fs_root) \<noteq> ''.tx''"
    by code_simp
  have b1: "with_suffix fs_root (path_suffix fs_root @ ''.tx'')
              = Inl (ValueError ''PosixPath('/') has an empty name'')"
    by code_simp
  have a2: "lower (path_suffix tex_locked) \<noteq> ''.tx''"
    by code_simp
  have b2: "with_suffix tex_locked (path_suffix tex_locked @ ''.tx'') = Inr tex_locked_tx"
    by code_simp
  have c2: "needs_conversion (os_stat demo_env) tex_locked tex_locked_tx
              = Inl (OSError ''[Errno 13] Permission denied'')"
    by code_simp
  have t2: "fst (convert_one_try demo_env tex_locked None False ''/opt/maketx'')
              = Inl (OSError ''[Errno 13] Permission denied'')"
    by code_simp
  have a3: "lower (path_suffix tex_wood) \<noteq> ''.tx''"
    by code_simp
  have b3: "with_suffix tex_wood (path_suffix tex_wood @ ''.tx'') = Inr tex_wood_tx"
    by code_simp
  have c3: "needs_conversion (os_stat env_no_converter) tex_wood tex_wood_tx = Inr True"
    by code_simp
  have d3: "subprocess_run env_no_converter
              (build_maketx_cmd tex_wood None False (is_color tex_wood)
                 (is_displacement tex_wood) ''/opt/maketx'') False
            = Inl (FileNotFoundError ''[Errno 2] No such file or directory: maketx'')"
    by code_simp
  have s: "''Exception: '' @ str_exn (ValueError ''PosixPath('/') has an empty name'')
             = ''Exception: PosixPath('/') has an empty name''"
    "''Exception: '' @ str_exn (OSError ''[Errno 13] Permission denied'')
             = ''Exception: [Errno 13] Permission denied''"
    "''Exception: '' @ str_exn
         (FileNotFoundError ''[Errno 2] No such file or directory: maketx'')
             = ''Exception: [Errno 2] No such file or directory: maketx''"
    by simp_all
  note u1 = convert_one_catches [where e = demo_env and src = fs_root and ocio_path = None
      and v = False and mk = "''/opt/maketx''"
      and x = "ValueError ''PosixPath('/') has an empty name''"]
  note u2 = convert_one_catches [where e = demo_env and src = tex_locked and ocio_path = None
      and v = False and mk = "''/opt/maketx''" and dst = tex_locked_tx
      and x = "OSError ''[Errno 13] Permission denied''"]
  note u3 = convert_one_catches [where e = env_no_converter and src = tex_wood
      and ocio_path = None and v = False and mk = "''/opt/maketx''" and dst = tex_wood_tx
      and x = "FileNotFoundError ''[Errno 2] No such file or directory: maketx''"]
  have r1: "convert_one demo_env fs_root None False ''/opt/maketx''
       = ((fs_root, False, ''Exception: PosixPath('/') has an empty name''), [])"
    using u1 a1 b1 unfolding s by blast
  have r2: "convert_one demo_env tex_locked None False ''/opt/maketx''
       = ((tex_locked, False, ''Exception: [Errno 13] Permission denied''), [])"
    using u2 a2 b2 c2 unfolding s by blast
  have r3: "fst (convert_one env_no_converter tex_wood None False ''/opt/maketx'')
       = (tex_wood, False, ''Exception: [Errno 2] No such file or directory: maketx'')"
    using u3 a3 b3 c3 d3 unfolding s by blast
  have r4: "outcome_src (fst (convert_one env_no_converter tex_wood None False ''/opt/maketx''))
       = tex_wood"
    using u3 by blast
  show ?thesis
    using a1 b1 r1 a2 b2 c2 t2 r2 a3 b3 c3 d3 r3 r4 by blast
qed

lemma convert_one_src: "outcome_src (fst (convert_one e src ocio_path v mk)) = src"
  by (auto simp: convert_one_def convert_one_try_def Let_def outcome_src_def
      split: sum.splits bool.splits prod.splits)

lemma not_tx_branch:
  "lower (path_suffix p) \<noteq> ''.tx'' \<Longrightarrow>
     fst (convert_one e p ocio_path v mk) \<noteq> (p, False, ''Already a .tx; skipping.'')"
  by (auto simp: convert_one_def convert_one_try_def Let_def
      split: sum.splits bool.splits prod.splits if_splits)

subsection \<open>The completion order\<close>

lemma mset_remove_nth:
  assumes "i < length xs"
  shows "add_mset (xs ! i) (mset (take i xs @ drop (Suc i) xs)) = mset xs"
proof -
  have "mset xs = mset (take i xs @ xs ! i # drop (Suc i) xs)"
    using assms by (simp only: id_take_nth_drop [symmetric])
  then show ?thesis by simp
qed

lemma mset_as_completed: "mset (as_completed ks xs) = mset xs"
proof (induction ks xs rule: as_completed.induct)
  case (1 ks)
  show ?case by simp
next
  case (2 v va)
  show ?case by simp
next
  case (3 k ks v va)
  let ?xs = "v # va"
  let ?i = "k mod length ?xs"
  have i: "?i < length ?xs" by simp
  have "mset (as_completed (k # ks) ?xs)
          = add_mset (?xs ! ?i) (mset (as_completed ks (take ?i ?xs @ drop (Suc ?i) ?xs)))"
    by (simp add: Let_def)
  also have "\<dots> = add_mset (?xs ! ?i) (mset (take ?i ?xs @ drop (Suc ?i) ?xs))"
    using "3.IH" [of ?i] by simp
  also have "\<dots> = mset ?xs"
    using i by (rule mset_remove_nth)
  finally show ?case .
qed

lemma length_as_completed: "length (as_completed ks xs) = length xs"
  using mset_as_completed [of ks xs] by (metis size_mset)

subsection \<open>The completion loop\<close>

lemma tally_step_fields:
  "received (tally_step ntotal r st) = received st @ [r]"
  "n_done (tally_step ntotal r st) = Suc (n_done st)"
  "n_ok (tally_step ntotal r st) = n_ok st + (if outcome_success r then 1 else 0)"
  "n_fail (tally_step ntotal r st) = n_fail st + (if is_failure r then 1 else 0)"
  "dispatched (tally_step ntotal r st) = dispatched st"
  "executed (tally_step ntotal r st) = executed st"
  "fatal (tally_step ntotal r st) = fatal st"
  "uncaught (tally_step ntotal r st) = uncaught st"
  "finished (tally_step ntotal r st) = finished st"
  "progress (tally_step ntotal r st) = progress st @ [(Suc (n_done st), ntotal)]"
  "length (item_done (tally_step ntotal r st)) = Suc (length (item_done st))"
  by (cases r; simp add: Let_def outcome_success_def outcome_message_def is_failure_def
      has_skip_marker_def)+

lemma drain_never:
  assumes "\<forall>i. \<not> cancelled i"
  shows "received (drain cancelled ntotal i rs st) = received st @ rs
     \<and> n_done (drain cancelled ntotal i rs st) = n_done st + length rs
     \<and> n_ok (drain cancelled ntotal i rs st) = n_ok st + length (filter outcome_success rs)
     \<and> n_fail (drain cancelled ntotal i rs st) = n_fail st + length (filter is_failure rs)
     \<and> length (progress (drain cancelled ntotal i rs st)) = length (progress st) + length rs"
  using assms
  by (induction rs arbitrary: i st) (simp_all add: tally_step_fields del: tally_step.simps)

lemma drain_frame:
  "dispatched (drain cancelled ntotal i rs st) = dispatched st
   \<and> executed (drain cancelled ntotal i rs st) = executed st
   \<and> fatal (drain cancelled ntotal i rs st) = fatal st
   \<and> uncaught (drain cancelled ntotal i rs st) = uncaught st
   \<and> finished (drain cancelled ntotal i rs st) = finished st"
  by (induction rs arbitrary: i st) (simp_all add: tally_step_fields del: tally_step.simps)

lemma drain_cancel:
  assumes "cancelled (i + k)" and "\<forall>j<k. \<not> cancelled (i + j)" and "k < length rs"
  shows "received (drain cancelled ntotal i rs st) = received st @ take k rs
     \<and> n_done (drain cancelled ntotal i rs st) = n_done st + k
     \<and> n_ok (drain cancelled ntotal i rs st)
         = n_ok st + length (filter outcome_success (take k rs))
     \<and> n_fail (drain cancelled ntotal i rs st)
         = n_fail st + length (filter is_failure (take k rs))
     \<and> length (progress (drain cancelled ntotal i rs st)) = length (progress st) + k
     \<and> item_done (drain cancelled ntotal i rs st) \<noteq> []
     \<and> last (item_done (drain cancelled ntotal i rs st))
         = ''Cancellation requested. Stopping...''"
  using assms
proof (induction rs arbitrary: i k st)
  case Nil
  then show ?case by simp
next
  case (Cons r rs)
  show ?case
  proof (cases k)
    case 0
    with Cons.prems show ?thesis by simp
  next
    case (Suc k')
    have nc: "\<not> cancelled i"
      using Cons.prems(2) Suc by (metis add.right_neutral zero_less_Suc)
    have c': "cancelled (Suc i + k')"
      using Cons.prems(1) Suc by simp
    have n': "\<forall>j<k'. \<not> cancelled (Suc i + j)"
    proof (intro allI impI)
      fix j assume "j < k'"
      then have "Suc j < k" using Suc by simp
      then have "\<not> cancelled (i + Suc j)" using Cons.prems(2) by blast
      then show "\<not> cancelled (Suc i + j)" by simp
    qed
    have l': "k' < length rs"
      using Cons.prems(3) Suc by simp
    show ?thesis
      using Cons.IH [OF c' n' l', of "tally_step ntotal r st"] nc Suc
      by (simp add: tally_step_fields del: tally_step.simps)
  qed
qed

lemma count_kinds:
  "length (filter outcome_success rs) + length (filter is_failure rs)
     + length (filter is_skip rs) = length rs"
  by (induction rs) (auto simp: is_failure_def is_skip_def)

subsection \<open>The shape of a run\<close>

lemma aborted_fields:
  "dispatched (emit_fatal msg) = []" "received (emit_fatal msg) = []"
  "executed (emit_fatal msg) = []" "finished (emit_fatal msg) = None"
  "n_done (emit_fatal msg) = 0" "n_ok (emit_fatal msg) = 0" "n_fail (emit_fatal msg) = 0"
  "fatal (emit_fatal msg) = Some msg" "uncaught (emit_fatal msg) = None"
  "dispatched (raise_uncaught x) = []" "received (raise_uncaught x) = []"
  "executed (raise_uncaught x) = []" "finished (raise_uncaught x) = None"
  "n_done (raise_uncaught x) = 0" "n_ok (raise_uncaught x) = 0" "n_fail (raise_uncaught x) = 0"
  "fatal (raise_uncaught x) = None" "uncaught (raise_uncaught x) = Some x"
  by (simp_all add: emit_fatal_def raise_uncaught_def idle_def)

lemma run_cases:
  obtains (fatal) msg where "run e self picks cancelled = emit_fatal msg"
  | (uncaught) x where "run e self picks cancelled = raise_uncaught x"
  | (batch) ocio files where "files \<noteq> []" and "resolve_ocio e self = Inr ocio"
      and "list_files e self = Inr files"
      and "run e self picks cancelled = run_batch e self ocio files picks cancelled"
      and "maketx_path self \<noteq> []"
      and "path_exists (os_stat e) (Path_of (maketx_path self)) = Inr True"
proof -
  have ab: "\<And>a. (\<exists>msg. abort_trace a = emit_fatal msg) \<or> (\<exists>x. abort_trace a = raise_uncaught x)"
  proof -
    fix a show "(\<exists>msg. abort_trace a = emit_fatal msg) \<or> (\<exists>x. abort_trace a = raise_uncaught x)"
      by (cases a) auto
  qed
  have "(\<exists>msg. run e self picks cancelled = emit_fatal msg)
        \<or> (\<exists>x. run e self picks cancelled = raise_uncaught x)
        \<or> (\<exists>ocio files. files \<noteq> [] \<and> resolve_ocio e self = Inr ocio
              \<and> list_files e self = Inr files
              \<and> run e self picks cancelled = run_batch e self ocio files picks cancelled
              \<and> maketx_path self \<noteq> []
              \<and> path_exists (os_stat e) (Path_of (maketx_path self)) = Inr True)"
  proof (cases "maketx_path self = []")
    case True
    then show ?thesis by (auto simp: run_def)
  next
    case mk: False
    show ?thesis
    proof (cases "path_exists (os_stat e) (Path_of (maketx_path self))")
      case (Inl x)
      with mk show ?thesis by (auto simp: run_def)
    next
      case (Inr b)
      show ?thesis
      proof (cases b)
        case False
        with mk Inr show ?thesis by (auto simp: run_def)
      next
        case True
        show ?thesis
        proof (cases "resolve_ocio e self")
          case (Inl a)
          with mk Inr True ab [of a] show ?thesis by (auto simp: run_def)
        next
          case ro: (Inr ocio)
          show ?thesis
          proof (cases "list_files e self")
            case (Inl a)
            with mk Inr True ro ab [of a] show ?thesis by (auto simp: run_def)
          next
            case lf: (Inr files)
            show ?thesis
            proof (cases "files = []")
              case True
              with mk Inr \<open>b\<close> ro lf show ?thesis
                by (auto simp: run_def run_batch_def)
            next
              case False
              with mk Inr \<open>b\<close> ro lf show ?thesis
                by (auto simp: run_def)
            qed
          qed
        qed
      qed
    qed
  qed
  then show thesis
    using fatal uncaught batch by blast
qed

lemma run_batch_never:
  assumes "\<forall>i. \<not> cancelled i" and "files \<noteq> []"
    and "r = run_batch e self ocio files picks cancelled"
  shows "dispatched r = files
     \<and> received r = as_completed picks
          (map (\<lambda>p. fst (convert_one e p (Some ocio) (verbose self) (maketx_path self))) files)
     \<and> n_done r = length files
     \<and> n_ok r = length (filter outcome_success (received r))
     \<and> n_fail r = length (filter is_failure (received r))
     \<and> finished r = Some (n_ok r, n_fail r)
     \<and> executed r = concat
          (map (\<lambda>p. snd (convert_one e p (Some ocio) (verbose self) (maketx_path self))) files)"
  using assms
  by (simp add: run_batch_def Let_def drain_never drain_frame idle_def length_as_completed
      comp_def)

lemma run_batch_cancel:
  assumes "cancelled k" and "\<forall>j<k. \<not> cancelled j" and "k < length files"
    and "r = run_batch e self ocio files picks cancelled"
  shows "dispatched r = files
     \<and> received r = take k (as_completed picks
          (map (\<lambda>p. fst (convert_one e p (Some ocio) (verbose self) (maketx_path self))) files))
     \<and> n_done r = k
     \<and> n_ok r = length (filter outcome_success (received r))
     \<and> n_fail r = length (filter is_failure (received r))
     \<and> finished r = Some (n_ok r, n_fail r)
     \<and> length (progress r) = k
     \<and> last (item_done r) = ''Cancellation requested. Stopping...''
     \<and> executed r = concat
          (map (\<lambda>p. snd (convert_one e p (Some ocio) (verbose self) (maketx_path self))) files)"
proof -
  let ?outs = "as_completed picks
          (map (\<lambda>p. fst (convert_one e p (Some ocio) (verbose self) (maketx_path self))) files)"
  have c: "cancelled (0 + k)" and n: "\<forall>j<k. \<not> cancelled (0 + j)" and l: "k < length ?outs"
    using assms by (simp_all add: length_as_completed)
  note d = drain_cancel [OF c n l]
  from assms(3) have ne: "files \<noteq> []" by auto
  show ?thesis
    using ne assms(4)
    by (simp add: run_batch_def Let_def d drain_frame idle_def comp_def)
qed

subsection \<open>Counting the outcomes of a batch\<close>

lemma run_reaches_batch:
  assumes "maketx_path self \<noteq> []"
    and "path_exists (os_stat e) (Path_of (maketx_path self)) = Inr True"
    and "resolve_ocio e self = Inr ocio" and "list_files e self = Inr files"
  shows "run e self picks cancelled = run_batch e self ocio files picks cancelled"
  using assms by (simp add: run_def)

lemma run_never_outcomes:
  assumes "\<forall>i. \<not> cancelled i" and "r = run e self picks cancelled"
    and "maketx_path self \<noteq> []"
    and "path_exists (os_stat e) (Path_of (maketx_path self)) = Inr True"
    and "resolve_ocio e self = Inr ocio" and "list_files e self = Inr files"
  shows "dispatched r = files
     \<and> mset (received r)
         = mset (map (\<lambda>p. fst (convert_one e p (Some ocio) (verbose self) (maketx_path self)))
                  files)"
proof -
  have r: "r = run_batch e self ocio files picks cancelled"
    using assms(2) run_reaches_batch [OF assms(3-6)] by simp
  show ?thesis
  proof (cases "files = []")
    case True
    then show ?thesis
      using r by (simp add: run_batch_def aborted_fields)
  next
    case False
    note b = run_batch_never [OF assms(1) False r]
    then show ?thesis
      by (simp only: mset_as_completed simp_thms)
  qed
qed

lemma dispatched_listed:
  assumes "dispatched (run e self picks cancelled) \<noteq> []"
  shows "list_files e self = Inr (dispatched (run e self picks cancelled))"
proof (cases rule: run_cases [of e self picks cancelled])
  case (fatal msg)
  with assms show ?thesis by (simp add: aborted_fields)
next
  case (uncaught x)
  with assms show ?thesis by (simp add: aborted_fields)
next
  case (batch ocio files)
  have "dispatched (run e self picks cancelled) = files"
    using batch(1,4) by (simp add: run_batch_def Let_def drain_frame idle_def)
  with batch(3) show ?thesis by simp
qed

text \<open>
  Claim C1. In a run whose cancellation flag is never set, the loop receives exactly
  one outcome for each dispatched file (the sources of the outcomes received are
  the dispatched files, in some order), the counter of completed tasks equals the
  number of files, the counters of successes and failures count the outcomes of
  these kinds, and successes plus failures plus skips equals the number of files.
  An outcome that is not a success is a skip when its lower-cased message contains
  \<open>skip\<close>, and a failure otherwise. The files dispatched are the files the
  enumeration gives: when the validation passes and the enumeration gives \<open>files\<close>,
  the run dispatches \<open>files\<close> and receives, in some order, the outcomes of
  \<open>convert_one\<close> on them.
\<close>

theorem batch_outcome_count:
  assumes "\<forall>i. \<not> cancelled i" and "r = run e self picks cancelled"
  shows "length (received r) = length (dispatched r)
     \<and> mset (map outcome_src (received r)) = mset (dispatched r)
     \<and> n_done r = length (dispatched r)
     \<and> n_ok r = length (filter outcome_success (received r))
     \<and> n_fail r = length (filter is_failure (received r))
     \<and> n_ok r + n_fail r + length (filter is_skip (received r)) = length (dispatched r)
     \<and> (dispatched r \<noteq> [] \<longrightarrow> finished r = Some (n_ok r, n_fail r))
     \<and> (dispatched r \<noteq> [] \<longrightarrow> list_files e self = Inr (dispatched r))
     \<and> (maketx_path self \<noteq> []
          \<and> path_exists (os_stat e) (Path_of (maketx_path self)) = Inr True
          \<and> resolve_ocio e self = Inr ocio \<and> list_files e self = Inr files \<longrightarrow>
          dispatched r = files
          \<and> length (received r) = length files
          \<and> n_ok r + n_fail r + length (filter is_skip (received r)) = length files
          \<and> mset (received r)
              = mset (map (\<lambda>p. fst (convert_one e p (Some ocio) (verbose self)
                                      (maketx_path self))) files))"
proof -
  have main: "length (received r) = length (dispatched r)
     \<and> mset (map outcome_src (received r)) = mset (dispatched r)
     \<and> n_done r = length (dispatched r)
     \<and> n_ok r = length (filter outcome_success (received r))
     \<and> n_fail r = length (filter is_failure (received r))
     \<and> n_ok r + n_fail r + length (filter is_skip (received r)) = length (dispatched r)
     \<and> (dispatched r \<noteq> [] \<longrightarrow> finished r = Some (n_ok r, n_fail r))"
  proof (cases rule: run_cases [of e self picks cancelled])
    case (fatal msg)
    with assms(2) show ?thesis by (simp add: aborted_fields)
  next
    case (uncaught x)
    with assms(2) show ?thesis by (simp add: aborted_fields)
  next
    case (batch ocio' files')
    let ?outs = "map (\<lambda>p. fst (convert_one e p (Some ocio') (verbose self) (maketx_path self)))
                   files'"
    have r: "r = run_batch e self ocio' files' picks cancelled"
      using assms(2) batch(4) by simp
    note b = run_batch_never [OF assms(1) batch(1) r]
    have len: "length (received r) = length (dispatched r)"
      using b by (simp add: length_as_completed)
    have "mset (received r) = mset ?outs"
      using b by (simp only: mset_as_completed)
    then have "image_mset outcome_src (mset (received r))
                 = image_mset outcome_src (mset ?outs)"
      by (rule arg_cong)
    then have p1: "mset (map outcome_src (received r)) = mset (map outcome_src ?outs)"
      by (simp only: mset_map)
    have p2: "map outcome_src ?outs = files'"
      by (simp add: comp_def convert_one_src)
    have d: "dispatched r = files'"
      using b by simp
    have perm: "mset (map outcome_src (received r)) = mset (dispatched r)"
      by (simp only: p1 p2 d)
    have sum: "n_ok r + n_fail r + length (filter is_skip (received r))
                 = length (dispatched r)"
      using b len count_kinds [of "received r"] by simp
    show ?thesis
      using b len perm sum by simp
  qed
  have listed: "dispatched r \<noteq> [] \<longrightarrow> list_files e self = Inr (dispatched r)"
    unfolding assms(2) using dispatched_listed by blast
  have tied: "maketx_path self \<noteq> []
          \<and> path_exists (os_stat e) (Path_of (maketx_path self)) = Inr True
          \<and> resolve_ocio e self = Inr ocio \<and> list_files e self = Inr files \<longrightarrow>
          dispatched r = files
          \<and> length (received r) = length files
          \<and> n_ok r + n_fail r + length (filter is_skip (received r)) = length files
          \<and> mset (received r)
              = mset (map (\<lambda>p. fst (convert_one e p (Some ocio) (verbose self)
                                      (maketx_path self))) files)"
  proof (intro impI)
    assume h: "maketx_path self \<noteq> []
          \<and> path_exists (os_stat e) (Path_of (maketx_path self)) = Inr True
          \<and> resolve_ocio e self = Inr ocio \<and> list_files e self = Inr files"
    then have o: "dispatched r = files
       \<and> mset (received r)
           = mset (map (\<lambda>p. fst (convert_one e p (Some ocio) (verbose self)
                                   (maketx_path self))) files)"
      using run_never_outcomes [OF assms(1,2)] by blast
    then have d: "dispatched r = files" ..
    show "dispatched r = files
          \<and> length (received r) = length files
          \<and> n_ok r + n_fail r + length (filter is_skip (received r)) = length files
          \<and> mset (received r)
              = mset (map (\<lambda>p. fst (convert_one e p (Some ocio) (verbose self)
                                      (maketx_path self))) files)"
      using o main unfolding d by blast
  qed
  from main listed tied show ?thesis by blast
qed

text \<open>
  The folder \<open>/tex\<close>: the enumeration gives four files, they are dispatched, one
  succeeds, one is skipped, one fails in the converter and one fails by an
  exception.
\<close>

theorem batch_outcome_count_witness:
  "maketx_path demo_worker \<noteq> []
   \<and> path_exists (os_stat demo_env) (Path_of (maketx_path demo_worker)) = Inr True
   \<and> resolve_ocio demo_env demo_worker = Inr ''/cfg/aces.ocio''
   \<and> list_files demo_env demo_worker = Inr [tex_wood, tex_rock, tex_metal, tex_locked]
   \<and> dispatched (run demo_env demo_worker [2, 0] never)
     = [tex_wood, tex_rock, tex_metal, tex_locked]
   \<and> received (run demo_env demo_worker [2, 0] never)
     = [(tex_metal, False, ''maketx failed: bad file''),
        (tex_wood, True, ''OK''),
        (tex_rock, False, ''Up-to-date .tx exists: rock_height.exr.tx; skipping.''),
        (tex_locked, False, ''Exception: [Errno 13] Permission denied'')]
   \<and> mset (received (run demo_env demo_worker [2, 0] never))
     = mset (map (\<lambda>p. fst (convert_one demo_env p (Some ''/cfg/aces.ocio'')
                             (verbose demo_worker) (maketx_path demo_worker)))
              [tex_wood, tex_rock, tex_metal, tex_locked])
   \<and> length (received (run demo_env demo_worker [2, 0] never)) = 4
   \<and> n_ok (run demo_env demo_worker [2, 0] never) = 1
   \<and> n_fail (run demo_env demo_worker [2, 0] never) = 2
   \<and> length (filter is_skip (received (run demo_env demo_worker [2, 0] never))) = 1
   \<and> n_ok (run demo_env demo_worker [2, 0] never)
       + n_fail (run demo_env demo_worker [2, 0] never)
       + length (filter is_skip (received (run demo_env demo_worker [2, 0] never)))
     = 4
   \<and> finished (run demo_env demo_worker [2, 0] never) = Some (1, 2)"
proof -
  have nv: "\<forall>i. \<not> never i"
    by (simp add: never_def)
  have v: "maketx_path demo_worker \<noteq> []"
    "path_exists (os_stat demo_env) (Path_of (maketx_path demo_worker)) = Inr True"
    "resolve_ocio demo_env demo_worker = Inr ''/cfg/aces.ocio''"
    "list_files demo_env demo_worker = Inr [tex_wood, tex_rock, tex_metal, tex_locked]"
    by code_simp+
  have rc: "received (run demo_env demo_worker [2, 0] never)
     = [(tex_metal, False, ''maketx failed: bad file''),
        (tex_wood, True, ''OK''),
        (tex_rock, False, ''Up-to-date .tx exists: rock_height.exr.tx; skipping.''),
        (tex_locked, False, ''Exception: [Errno 13] Permission denied'')]"
    by code_simp
  have k: "n_ok (run demo_env demo_worker [2, 0] never) = 1"
    by code_simp
  have f: "n_fail (run demo_env demo_worker [2, 0] never) = 2"
    by code_simp
  note t = batch_outcome_count [OF nv refl, of demo_env demo_worker "[2, 0]"
      "''/cfg/aces.ocio''" "[tex_wood, tex_rock, tex_metal, tex_locked]"]
  have t2: "dispatched (run demo_env demo_worker [2, 0] never)
              = [tex_wood, tex_rock, tex_metal, tex_locked]
     \<and> length (received (run demo_env demo_worker [2, 0] never))
         = length [tex_wood, tex_rock, tex_metal, tex_locked]
     \<and> n_ok (run demo_env demo_worker [2, 0] never)
         + n_fail (run demo_env demo_worker [2, 0] never)
         + length (filter is_skip (received (run demo_env demo_worker [2, 0] never)))
         = length [tex_wood, tex_rock, tex_metal, tex_locked]
     \<and> mset (received (run demo_env demo_worker [2, 0] never))
         = mset (map (\<lambda>p. fst (convert_one demo_env p (Some ''/cfg/aces.ocio'')
                               (verbose demo_worker) (maketx_path demo_worker)))
                  [tex_wood, tex_rock, tex_metal, tex_locked])"
    using t v by blast
  have four: "length [tex_wood, tex_rock, tex_metal, tex_locked] = 4"
    by simp
  have fin: "finished (run demo_env demo_worker [2, 0] never) = Some (1, 2)"
  proof -
    have "dispatched (run demo_env demo_worker [2, 0] never) \<noteq> []"
      using t2 by simp
    then have "finished (run demo_env demo_worker [2, 0] never)
                 = Some (n_ok (run demo_env demo_worker [2, 0] never),
                         n_fail (run demo_env demo_worker [2, 0] never))"
      using t by blast
    then show ?thesis by (simp only: k f)
  qed
  have sk: "length (filter is_skip (received (run demo_env demo_worker [2, 0] never))) = 1"
    using t2 k f by (simp only: four) simp
  show ?thesis
    using v rc t2 k f sk fin unfolding four by simp
qed

subsection \<open>Cancellation\<close>

text \<open>
  Claim C9. The flag is read at the start of each iteration of the completion loop,
  that is, after each completed task. When the flag is first seen set at iteration
  \<open>k\<close>, before all tasks have been received, the loop stops: the outcomes tallied
  are the first \<open>k\<close> of the completion order, the counters and the final tally
  count these outcomes only, the last message announces the cancellation, and the
  tasks dispatched and the commands they run are those of the run that is not
  cancelled.
\<close>

theorem cancellation_early_exit:
  assumes "cancelled k" and "\<forall>j<k. \<not> cancelled j"
    and "r = run e self picks cancelled" and "r0 = run e self picks never"
    and "k < length (dispatched r)"
  shows "received r = take k (received r0)
     \<and> length (received r0) = length (dispatched r0)
     \<and> n_done r = k
     \<and> n_ok r = length (filter outcome_success (received r))
     \<and> n_fail r = length (filter is_failure (received r))
     \<and> finished r = Some (n_ok r, n_fail r)
     \<and> length (progress r) = k
     \<and> last (item_done r) = ''Cancellation requested. Stopping...''
     \<and> dispatched r = dispatched r0
     \<and> executed r = executed r0"
proof (cases rule: run_cases [of e self picks cancelled])
  case (fatal msg)
  with assms(3,5) show ?thesis by (simp add: aborted_fields)
next
  case (uncaught x)
  with assms(3,5) show ?thesis by (simp add: aborted_fields)
next
  case (batch ocio files)
  have r: "r = run_batch e self ocio files picks cancelled"
    using assms(3) batch(4) by simp
  have "run e self picks never = run_batch e self ocio files picks never"
    using batch(2,3,5,6) by (simp add: run_def)
  then have r0: "r0 = run_batch e self ocio files picks never"
    using assms(4) by simp
  have nv: "\<forall>i. \<not> never i"
    by (simp add: never_def)
  note b0 = run_batch_never [OF nv batch(1) r0]
  have kl: "k < length files"
  proof -
    have "dispatched r = files"
      using batch(1) r by (simp add: run_batch_def Let_def drain_frame idle_def)
    then show ?thesis using assms(5) by simp
  qed
  note b = run_batch_cancel [OF assms(1,2) kl r]
  show ?thesis
    using b b0 by (simp add: length_as_completed)
qed

text \<open>The folder \<open>/tex\<close>, with the flag seen set at the third read.\<close>

theorem cancellation_early_exit_witness:
  "from_third 2 \<and> \<not> from_third 0 \<and> \<not> from_third 1
   \<and> length (dispatched (run demo_env demo_worker [2, 0] from_third)) = 4
   \<and> map outcome_src (received (run demo_env demo_worker [2, 0] never))
       = [tex_metal, tex_wood, tex_rock, tex_locked]
   \<and> map outcome_src (received (run demo_env demo_worker [2, 0] from_third))
       = [tex_metal, tex_wood]
   \<and> received (run demo_env demo_worker [2, 0] from_third)
       = take 2 (received (run demo_env demo_worker [2, 0] never))
   \<and> n_done (run demo_env demo_worker [2, 0] from_third) = 2
   \<and> finished (run demo_env demo_worker [2, 0] from_third) = Some (1, 1)
   \<and> executed (run demo_env demo_worker [2, 0] from_third)
       = executed (run demo_env demo_worker [2, 0] never)
   \<and> length (executed (run demo_env demo_worker [2, 0] from_third)) = 2"
proof -
  have c: "from_third 2"
    by (simp add: from_third_def)
  have n: "\<forall>j<2. \<not> from_third j"
    by (simp add: from_third_def)
  have l: "2 < length (dispatched (run demo_env demo_worker [2, 0] from_third))"
    by code_simp
  have l4: "length (dispatched (run demo_env demo_worker [2, 0] from_third)) = 4"
    by code_simp
  have s0: "map outcome_src (received (run demo_env demo_worker [2, 0] never))
              = [tex_metal, tex_wood, tex_rock, tex_locked]"
    by code_simp
  have k: "n_ok (run demo_env demo_worker [2, 0] from_third) = 1"
    "n_fail (run demo_env demo_worker [2, 0] from_third) = 1"
    by code_simp+
  have x: "length (executed (run demo_env demo_worker [2, 0] from_third)) = 2"
    by code_simp
  note t = cancellation_early_exit [OF c n refl refl l]
  have s: "map outcome_src (received (run demo_env demo_worker [2, 0] from_third))
             = [tex_metal, tex_wood]"
  proof -
    have "map outcome_src (received (run demo_env demo_worker [2, 0] from_third))
            = take 2 (map outcome_src (received (run demo_env demo_worker [2, 0] never)))"
      using t by (simp only: take_map)
    then show ?thesis by (simp add: s0)
  qed
  have n0: "\<not> from_third 0" "\<not> from_third 1"
    by (simp_all add: from_third_def)
  have r1: "received (run demo_env demo_worker [2, 0] from_third)
              = take 2 (received (run demo_env demo_worker [2, 0] never))"
    using t by blast
  have nd: "n_done (run demo_env demo_worker [2, 0] from_third) = 2"
    using t by blast
  have "finished (run demo_env demo_worker [2, 0] from_third)
          = Some (n_ok (run demo_env demo_worker [2, 0] from_third),
                  n_fail (run demo_env demo_worker [2, 0] from_third))"
    using t by blast
  then have fin: "finished (run demo_env demo_worker [2, 0] from_third) = Some (1, 1)"
    by (simp only: k)
  have ex: "executed (run demo_env demo_worker [2, 0] from_third)
              = executed (run demo_env demo_worker [2, 0] never)"
    using t by blast
  show ?thesis
    using c n0 l4 s0 s r1 nd fin ex x by blast
qed

subsection \<open>Enumeration\<close>

lemma collect_valid:
  "collect fs flt ps fin = Inr files \<Longrightarrow>
     \<forall>p\<in>set files. p \<in> set ps \<and> path_is_file fs p = Inr True
        \<and> lower (path_suffix p) \<in> set VALID_EXTS"
proof (induction ps arbitrary: files)
  case Nil
  then show ?case by (cases fin) simp_all
next
  case (Cons q qs)
  from Cons.prems obtain isf rest where
    q: "path_is_file fs q = Inr isf" and rest: "collect fs flt qs fin = Inr rest"
    and files: "files = (if isf \<and> lower (path_suffix q) \<in> set VALID_EXTS
                         then (if flt \<noteq> [] \<and> \<not> str_in flt (path_name q) then rest
                               else q # rest)
                         else rest)"
    by (auto split: sum.splits)
  from Cons.IH [OF rest] show ?case
    unfolding files using q by auto
qed

lemma list_files_valid:
  "list_files e self = Inr files \<Longrightarrow> \<forall>p\<in>set files. lower (path_suffix p) \<in> set VALID_EXTS"
  by (auto simp: list_files_def split: listing.splits sum.splits dest: collect_valid)

lemma dispatched_valid:
  "p \<in> set (dispatched (run e self picks cancelled)) \<Longrightarrow>
     lower (path_suffix p) \<in> set VALID_EXTS"
proof (cases rule: run_cases [of e self picks cancelled])
  case (fatal msg)
  moreover assume "p \<in> set (dispatched (run e self picks cancelled))"
  ultimately show ?thesis by (simp add: aborted_fields)
next
  case (uncaught x)
  moreover assume "p \<in> set (dispatched (run e self picks cancelled))"
  ultimately show ?thesis by (simp add: aborted_fields)
next
  case (batch ocio files)
  assume p: "p \<in> set (dispatched (run e self picks cancelled))"
  have "dispatched (run e self picks cancelled) = files"
    using batch(1,4) by (simp add: run_batch_def Let_def drain_frame idle_def)
  with p list_files_valid [OF batch(3)] show ?thesis by simp
qed

lemma tx_not_valid: "''.tx'' \<notin> set VALID_EXTS"
  by (simp add: VALID_EXTS_def)

text \<open>
  Claim C10. \<open>.tx\<close> is not a recognised extension, and every file a run dispatches
  has a lower-cased suffix among the recognised extensions; so for a dispatched file
  \<open>convert_one\<close> does not take the branch for sources that are already \<open>.tx\<close>.
\<close>

theorem enumerated_never_tx:
  "''.tx'' \<notin> set VALID_EXTS
   \<and> (\<forall>p\<in>set (dispatched (run e self picks cancelled)).
        lower (path_suffix p) \<in> set VALID_EXTS
        \<and> lower (path_suffix p) \<noteq> ''.tx''
        \<and> fst (convert_one e' p ocio_path v mk) \<noteq> (p, False, ''Already a .tx; skipping.''))"
proof (intro conjI ballI)
  show "''.tx'' \<notin> set VALID_EXTS" by (rule tx_not_valid)
next
  fix p assume "p \<in> set (dispatched (run e self picks cancelled))"
  then show v: "lower (path_suffix p) \<in> set VALID_EXTS" by (rule dispatched_valid)
  then show n: "lower (path_suffix p) \<noteq> ''.tx''" using tx_not_valid by metis
  then show "fst (convert_one e' p ocio_path v mk) \<noteq> (p, False, ''Already a .tx; skipping.'')"
    by (rule not_tx_branch)
qed

text \<open>
  The folder \<open>/tex\<close>: the \<open>.tx\<close> file it holds is not dispatched, and the branch is
  taken only when that file is passed to \<open>convert_one\<close> directly.
\<close>

theorem enumerated_never_tx_witness:
  "dispatched (run demo_env demo_worker [2, 0] never)
     = [tex_wood, tex_rock, tex_metal, tex_locked]
   \<and> tex_metal \<in> set (dispatched (run demo_env demo_worker [2, 0] never))
   \<and> lower (path_suffix tex_metal) = ''.tif''
   \<and> lower (path_suffix tex_metal) \<in> set VALID_EXTS
   \<and> lower (path_suffix tex_metal) \<noteq> ''.tx''
   \<and> fst (convert_one demo_env tex_metal None False ''/opt/maketx'')
       \<noteq> (tex_metal, False, ''Already a .tx; skipping.'')
   \<and> tex_rock_tx \<notin> set (dispatched (run demo_env demo_worker [2, 0] never))
   \<and> fst (convert_one demo_env tex_rock_tx None False ''/opt/maketx'')
       = (tex_rock_tx, False, ''Already a .tx; skipping.'')"
proof -
  have d: "dispatched (run demo_env demo_worker [2, 0] never)
             = [tex_wood, tex_rock, tex_metal, tex_locked]"
    by code_simp
  have m: "tex_metal \<in> set (dispatched (run demo_env demo_worker [2, 0] never))"
    unfolding d by simp
  have x: "lower (path_suffix tex_metal) = ''.tif''"
    by code_simp
  have nx: "tex_rock_tx \<notin> set (dispatched (run demo_env demo_worker [2, 0] never))"
    unfolding d by code_simp
  have r: "fst (convert_one demo_env tex_rock_tx None False ''/opt/maketx'')
             = (tex_rock_tx, False, ''Already a .tx; skipping.'')"
    by code_simp
  note t = enumerated_never_tx [of demo_env demo_worker "[2, 0]" never demo_env None False
      "''/opt/maketx''", THEN conjunct2, THEN bspec, OF m]
  show ?thesis
    using d m x nx r t by blast
qed

subsection \<open>Validation\<close>

lemma convert_one_environ:
  "convert_one (e\<lparr>environ_OCIO := x\<rparr>) p ocio_path v mk = convert_one e p ocio_path v mk"
  by (simp add: convert_one_def convert_one_try_def Let_def
      cong: sum.case_cong bool.case_cong if_cong)

lemma list_files_environ: "list_files (e\<lparr>environ_OCIO := x\<rparr>) self = list_files e self"
  by (simp add: list_files_def split: listing.splits)

lemma run_batch_environ:
  "run_batch (e\<lparr>environ_OCIO := x\<rparr>) self ocio files picks cancelled
     = run_batch e self ocio files picks cancelled"
  by (simp add: run_batch_def Let_def convert_one_environ)

lemma resolve_ocio_explicit:
  "truthy (ocio_file self) \<Longrightarrow> resolve_ocio (e\<lparr>environ_OCIO := x\<rparr>) self = resolve_ocio e self"
  by (simp add: resolve_ocio_def)

lemma run_explicit_environ:
  "truthy (ocio_file self) \<Longrightarrow>
     run (e\<lparr>environ_OCIO := x\<rparr>) self picks cancelled = run e self picks cancelled"
  by (simp add: run_def resolve_ocio_explicit list_files_environ run_batch_environ
      cong: sum.case_cong bool.case_cong if_cong)

lemma fatal_no_dispatch:
  assumes "fatal (run e self picks cancelled) \<noteq> None"
  shows "dispatched (run e self picks cancelled) = []
     \<and> executed (run e self picks cancelled) = []
     \<and> received (run e self picks cancelled) = []
     \<and> finished (run e self picks cancelled) = None"
proof (cases rule: run_cases [of e self picks cancelled])
  case (fatal msg)
  then show ?thesis by (simp add: aborted_fields)
next
  case (uncaught x)
  then show ?thesis by (simp add: aborted_fields)
next
  case (batch ocio files)
  have "fatal (run e self picks cancelled) = None"
    using batch(1,4) by (simp add: run_batch_def Let_def drain_frame idle_def)
  with assms show ?thesis by simp
qed

lemma dispatch_resolved:
  assumes "dispatched (run e self picks cancelled) \<noteq> []"
  shows "\<exists>ocio. resolve_ocio e self = Inr ocio"
proof (cases rule: run_cases [of e self picks cancelled])
  case (fatal msg)
  with assms show ?thesis by (simp add: aborted_fields)
next
  case (uncaught x)
  with assms show ?thesis by (simp add: aborted_fields)
next
  case (batch ocio files)
  then show ?thesis by blast
qed

lemma not_exists_not_file: "path_exists fs p = Inr False \<Longrightarrow> path_is_file fs p = Inr False"
  by (auto simp: path_exists_def path_is_file_def split: sum.splits exn.splits)

text \<open>
  What the validation guarantees. A run that emits a fatal signal dispatches no task,
  runs no command and receives no outcome; a run that dispatches a task has resolved
  the configuration. An explicit configuration path takes precedence: the run does
  not depend on the environment variable, and an explicit path that is a regular
  file is the one used. Once the converter path is accepted: an explicit path that
  is not an existing regular file is fatal; without an explicit path, an unset (or
  blank) variable is fatal, and a variable naming a path that does not exist is
  fatal, with a different message.
\<close>

lemma ocio_resolution:
  assumes "r = run e self picks cancelled"
  shows "(fatal r \<noteq> None \<longrightarrow>
            dispatched r = [] \<and> executed r = [] \<and> received r = [] \<and> finished r = None)
     \<and> (dispatched r \<noteq> [] \<longrightarrow> (\<exists>ocio. resolve_ocio e self = Inr ocio))
     \<and> (truthy (ocio_file self) \<longrightarrow>
          run (e\<lparr>environ_OCIO := x\<rparr>) self picks cancelled = r)
     \<and> (truthy (ocio_file self)
          \<and> path_is_file (os_stat e) (Path_of (or_empty (ocio_file self))) = Inr True \<longrightarrow>
          resolve_ocio e self = Inr (or_empty (ocio_file self)))
     \<and> (path_exists (os_stat e) (Path_of (or_empty (ocio_file self))) = Inr False \<longrightarrow>
          path_is_file (os_stat e) (Path_of (or_empty (ocio_file self))) = Inr False)
     \<and> (maketx_path self \<noteq> []
          \<and> path_exists (os_stat e) (Path_of (maketx_path self)) = Inr True \<longrightarrow>
          (truthy (ocio_file self)
             \<and> path_is_file (os_stat e) (Path_of (or_empty (ocio_file self))) = Inr False \<longrightarrow>
             fatal r = Some (''OCIO file not found: '' @ or_empty (ocio_file self)))
          \<and> (\<not> truthy (ocio_file self) \<and> strip (or_empty (environ_OCIO e)) = [] \<longrightarrow>
             fatal r = Some ''No OCIO specified and $OCIO is not set.'')
          \<and> (\<not> truthy (ocio_file self) \<and> strip (or_empty (environ_OCIO e)) \<noteq> []
             \<and> path_exists (os_stat e) (Path_of (strip (or_empty (environ_OCIO e))))
                 = Inr False \<longrightarrow>
             fatal r = Some (''$OCIO points to non-existent file: ''
                             @ strip (or_empty (environ_OCIO e)))))
     \<and> ''No OCIO specified and $OCIO is not set.''
          \<noteq> ''$OCIO points to non-existent file: '' @ y"
proof -
  have 1: "fatal r \<noteq> None \<longrightarrow>
            dispatched r = [] \<and> executed r = [] \<and> received r = [] \<and> finished r = None"
    unfolding assms using fatal_no_dispatch by blast
  have 2: "dispatched r \<noteq> [] \<longrightarrow> (\<exists>ocio. resolve_ocio e self = Inr ocio)"
    unfolding assms using dispatch_resolved by blast
  have 3: "truthy (ocio_file self) \<longrightarrow> run (e\<lparr>environ_OCIO := x\<rparr>) self picks cancelled = r"
    unfolding assms by (simp add: run_explicit_environ)
  have 4: "truthy (ocio_file self)
          \<and> path_is_file (os_stat e) (Path_of (or_empty (ocio_file self))) = Inr True \<longrightarrow>
          resolve_ocio e self = Inr (or_empty (ocio_file self))"
    by (simp add: resolve_ocio_def)
  have 5: "path_exists (os_stat e) (Path_of (or_empty (ocio_file self))) = Inr False \<longrightarrow>
          path_is_file (os_stat e) (Path_of (or_empty (ocio_file self))) = Inr False"
    using not_exists_not_file by blast
  have 6: "maketx_path self \<noteq> []
          \<and> path_exists (os_stat e) (Path_of (maketx_path self)) = Inr True \<longrightarrow>
          (truthy (ocio_file self)
             \<and> path_is_file (os_stat e) (Path_of (or_empty (ocio_file self))) = Inr False \<longrightarrow>
             fatal r = Some (''OCIO file not found: '' @ or_empty (ocio_file self)))
          \<and> (\<not> truthy (ocio_file self) \<and> strip (or_empty (environ_OCIO e)) = [] \<longrightarrow>
             fatal r = Some ''No OCIO specified and $OCIO is not set.'')
          \<and> (\<not> truthy (ocio_file self) \<and> strip (or_empty (environ_OCIO e)) \<noteq> []
             \<and> path_exists (os_stat e) (Path_of (strip (or_empty (environ_OCIO e))))
                 = Inr False \<longrightarrow>
             fatal r = Some (''$OCIO points to non-existent file: ''
                             @ strip (or_empty (environ_OCIO e))))"
    unfolding assms
    by (auto simp: run_def resolve_ocio_def Let_def aborted_fields)
  have 7: "''No OCIO specified and $OCIO is not set.''
          \<noteq> ''$OCIO points to non-existent file: '' @ y"
    by simp
  from 1 2 3 4 5 6 7 show ?thesis by blast
qed

text \<open>
  A wrong explicit path; a valid explicit path with a wrong variable; no explicit
  path with the variable unset; no explicit path with the variable naming a missing
  file.
\<close>

lemma ocio_resolution_runs:
  "maketx_path demo_worker \<noteq> []
   \<and> path_exists (os_stat demo_env) (Path_of (maketx_path demo_worker)) = Inr True
   \<and> truthy (ocio_file worker_bad_ocio)
   \<and> path_is_file (os_stat env_bad_ocio) (Path_of (or_empty (ocio_file worker_bad_ocio)))
       = Inr False
   \<and> fatal (run env_bad_ocio worker_bad_ocio [2, 0] never)
       = Some ''OCIO file not found: /cfg/none.ocio''
   \<and> dispatched (run env_bad_ocio worker_bad_ocio [2, 0] never) = []
   \<and> truthy (ocio_file demo_worker)
   \<and> run env_bad_ocio demo_worker [2, 0] never = run demo_env demo_worker [2, 0] never
   \<and> resolve_ocio env_bad_ocio demo_worker = Inr ''/cfg/aces.ocio''
   \<and> length (dispatched (run env_bad_ocio demo_worker [2, 0] never)) = 4
   \<and> \<not> truthy (ocio_file worker_no_ocio)
   \<and> strip (or_empty (environ_OCIO demo_env)) = []
   \<and> fatal (run demo_env worker_no_ocio [2, 0] never)
       = Some ''No OCIO specified and $OCIO is not set.''
   \<and> dispatched (run demo_env worker_no_ocio [2, 0] never) = []
   \<and> strip (or_empty (environ_OCIO env_bad_ocio)) = ''/cfg/none.ocio''
   \<and> path_exists (os_stat env_bad_ocio) (Path_of ''/cfg/none.ocio'') = Inr False
   \<and> fatal (run env_bad_ocio worker_no_ocio [2, 0] never)
       = Some ''$OCIO points to non-existent file: /cfg/none.ocio''
   \<and> dispatched (run env_bad_ocio worker_no_ocio [2, 0] never) = []"
proof -
  have mk: "maketx_path demo_worker \<noteq> []"
    "path_exists (os_stat demo_env) (Path_of (maketx_path demo_worker)) = Inr True"
    "maketx_path worker_bad_ocio \<noteq> []"
    "path_exists (os_stat env_bad_ocio) (Path_of (maketx_path worker_bad_ocio)) = Inr True"
    "maketx_path worker_no_ocio \<noteq> []"
    "path_exists (os_stat demo_env) (Path_of (maketx_path worker_no_ocio)) = Inr True"
    "path_exists (os_stat env_bad_ocio) (Path_of (maketx_path worker_no_ocio)) = Inr True"
    by code_simp+
  have a: "truthy (ocio_file worker_bad_ocio)"
    "path_is_file (os_stat env_bad_ocio) (Path_of (or_empty (ocio_file worker_bad_ocio)))
       = Inr False"
    "or_empty (ocio_file worker_bad_ocio) = ''/cfg/none.ocio''"
    by code_simp+
  have b: "truthy (ocio_file demo_worker)"
    "path_is_file (os_stat env_bad_ocio) (Path_of (or_empty (ocio_file demo_worker)))
       = Inr True"
    "or_empty (ocio_file demo_worker) = ''/cfg/aces.ocio''"
    "length (dispatched (run demo_env demo_worker [2, 0] never)) = 4"
    by code_simp+
  have b': "demo_env\<lparr>environ_OCIO := Some ''/cfg/none.ocio''\<rparr> = env_bad_ocio"
    by (simp add: env_bad_ocio_def)
  have c: "\<not> truthy (ocio_file worker_no_ocio)"
    "strip (or_empty (environ_OCIO demo_env)) = []"
    "strip (or_empty (environ_OCIO env_bad_ocio)) = ''/cfg/none.ocio''"
    "path_exists (os_stat env_bad_ocio) (Path_of ''/cfg/none.ocio'') = Inr False"
    by code_simp+
  note t1 = ocio_resolution [OF refl, of env_bad_ocio worker_bad_ocio "[2, 0]" never]
  note t2 = ocio_resolution [OF refl, of demo_env demo_worker "[2, 0]" never
      "Some ''/cfg/none.ocio''"]
  note t2' = ocio_resolution [OF refl, of env_bad_ocio demo_worker "[2, 0]" never]
  note t3 = ocio_resolution [OF refl, of demo_env worker_no_ocio "[2, 0]" never]
  note t4 = ocio_resolution [OF refl, of env_bad_ocio worker_no_ocio "[2, 0]" never]
  have r1: "fatal (run env_bad_ocio worker_bad_ocio [2, 0] never)
              = Some ''OCIO file not found: /cfg/none.ocio''"
    using t1 mk a by simp
  have r1': "dispatched (run env_bad_ocio worker_bad_ocio [2, 0] never) = []"
    using t1 r1 by simp
  have r2: "run env_bad_ocio demo_worker [2, 0] never = run demo_env demo_worker [2, 0] never"
    using t2 b b' by simp
  have r2': "resolve_ocio env_bad_ocio demo_worker = Inr ''/cfg/aces.ocio''"
    using t2' b by simp
  have r3: "fatal (run demo_env worker_no_ocio [2, 0] never)
              = Some ''No OCIO specified and $OCIO is not set.''"
    using t3 mk c by simp
  have r3': "dispatched (run demo_env worker_no_ocio [2, 0] never) = []"
    using t3 r3 by simp
  have r4: "fatal (run env_bad_ocio worker_no_ocio [2, 0] never)
              = Some ''$OCIO points to non-existent file: /cfg/none.ocio''"
    using t4 mk c by simp
  have r4': "dispatched (run env_bad_ocio worker_no_ocio [2, 0] never) = []"
    using t4 r4 by simp
  show ?thesis
    using mk a b c r1 r1' r2 r2' r3 r3' r4 r4' by simp
qed

text \<open>
  Claim C8. The claim asks of the fallback what it asks of the explicit path: that it
  name an existing file, the run being fatal otherwise. The explicit path is tested
  with \<open>is_file\<close> (line 172), the fallback with \<open>exists\<close> (line 181). So when the
  variable names the existing directory \<open>/cfg\<close>, no fatal signal is emitted, the four
  files are dispatched and the converter is run with \<open>--colorconfig /cfg\<close>; the same
  directory given as the explicit path is fatal.
\<close>

theorem ocio_fallback_accepts_directory:
  "\<not> truthy (ocio_file worker_no_ocio)
   \<and> strip (or_empty (environ_OCIO env_dir_ocio)) = ''/cfg''
   \<and> path_exists (os_stat env_dir_ocio) (Path_of ''/cfg'') = Inr True
   \<and> path_is_file (os_stat env_dir_ocio) (Path_of ''/cfg'') = Inr False
   \<and> fatal (run env_dir_ocio worker_no_ocio [2, 0] never) = None
   \<and> dispatched (run env_dir_ocio worker_no_ocio [2, 0] never)
       = [tex_wood, tex_rock, tex_metal, tex_locked]
   \<and> length (executed (run env_dir_ocio worker_no_ocio [2, 0] never)) = 2
   \<and> list_all (sublist [''--colorconfig'', ''/cfg''])
       (executed (run env_dir_ocio worker_no_ocio [2, 0] never))
   \<and> truthy (ocio_file worker_dir_ocio)
   \<and> fatal (run demo_env worker_dir_ocio [2, 0] never) = Some ''OCIO file not found: /cfg''
   \<and> dispatched (run demo_env worker_dir_ocio [2, 0] never) = []"
  by code_simp

text \<open>
  The variable is stripped of Unicode white space before it is tested: padded with a
  no-break space and a space, it still names the configuration file.
\<close>

lemma environ_padded_accepted:
  "resolve_ocio env_padded_ocio worker_no_ocio = Inr ''/cfg/aces.ocio''"
  by code_simp

end
